theory Spec2Isabelle
  imports Complex_Main
begin

section \<open>Python strings\<close>

text \<open>
  A Python \<open>str\<close> is a sequence of code points. The model keeps the code points below 256
  (one \<open>char\<close> each), which is where the synthetic data of \<open>faker_producer.py\<close> lives.
  On that range the string methods used by the producer are as follows.
\<close>

definition ascii_digit :: "char \<Rightarrow> bool" where
  "ascii_digit c = (48 \<le> (of_char c :: nat) \<and> (of_char c :: nat) \<le> 57)"

definition isdigit_char :: "char \<Rightarrow> bool" where
  \<comment> \<open>\<open>str.isdigit\<close> on one character: Numeric_Type Decimal or Digit. Below 256 these are
      \<open>0\<close>..\<open>9\<close> and the superscripts U+00B2, U+00B3, U+00B9.\<close>
  "isdigit_char c = (ascii_digit c \<or> c = CHR 0xB2 \<or> c = CHR 0xB3 \<or> c = CHR 0xB9)"

definition isdigit :: "string \<Rightarrow> bool" where
  \<comment> \<open>\<open>str.isdigit\<close>: at least one character and all of them digits.\<close>
  "isdigit s = (s \<noteq> [] \<and> list_all isdigit_char s)"

definition isspace_char :: "char \<Rightarrow> bool" where
  \<comment> \<open>\<open>str.isspace\<close> on one character, below 256.\<close>
  "isspace_char c = ((9 \<le> (of_char c :: nat) \<and> (of_char c :: nat) \<le> 13)
      \<or> (28 \<le> (of_char c :: nat) \<and> (of_char c :: nat) \<le> 32)
      \<or> c = CHR 0x85 \<or> c = CHR 0xA0)"

definition strip :: "string \<Rightarrow> string" where
  \<comment> \<open>\<open>str.strip()\<close>: leading and trailing whitespace removed.\<close>
  "strip s = rev (dropWhile isspace_char (rev (dropWhile isspace_char s)))"

definition lower_char :: "char \<Rightarrow> char" where
  \<comment> \<open>\<open>str.lower\<close> on one character below 256: A-Z, and U+00C0..U+00DE except U+00D7.\<close>
  "lower_char c = (let n = (of_char c :: nat) in
      if (65 \<le> n \<and> n \<le> 90) \<or> (192 \<le> n \<and> n \<le> 222 \<and> n \<noteq> 215)
      then char_of (n + 32) else c)"

definition lower :: "string \<Rightarrow> string" where
  "lower s = map lower_char s"

section \<open>Errors\<close>

datatype error =
    ValidationError    \<comment> \<open>pydantic's, raised by \<open>model_validate\<close>\<close>
  | ValueError
  | TypeError
  | IndexError
  | KeyError
  | InvalidOperation   \<comment> \<open>\<open>decimal.InvalidOperation\<close>\<close>

section \<open>Field validators on strings\<close>

definition validate_mobile :: "string \<Rightarrow> error + string" where
  \<comment> \<open>\<open>CustomerModel.validate_mobile\<close> and \<open>DeliveryAgentModel.validate_mobile\<close> have the same
      body. Python's \<open>or\<close> reads \<open>v[0]\<close> only when \<open>len(v) == 10\<close>.\<close>
  "validate_mobile v =
     (if length v \<noteq> 10 \<or> hd v \<notin> set ''6789'' \<or> \<not> isdigit v
      then Inl ValueError else Inr v)"

definition matches_mobile_regex :: "string \<Rightarrow> bool" where
  \<comment> \<open>The specification's \<open>^[6-9]\d{9}$\<close> as the specification reads it: exactly 10
      characters, all decimal digits, the first one in 6..9. Below 256 the decimal digits
      (category Nd) are \<open>0\<close>..\<open>9\<close>.\<close>
  "matches_mobile_regex v =
     (length v = 10 \<and> list_all ascii_digit v \<and> hd v \<in> set ''6789'')"


fun split_on :: "char \<Rightarrow> string \<Rightarrow> string list" where
  \<comment> \<open>\<open>s.split(sep)\<close> for a one-character separator.\<close>
  "split_on sep [] = [[]]"
| "split_on sep (c # cs) =
     (if c = sep then [] # split_on sep cs
      else (case split_on sep cs of [] \<Rightarrow> [[c]] | p # ps \<Rightarrow> (c # p) # ps))"

definition replace_Z :: "string \<Rightarrow> string" where
  \<comment> \<open>\<open>v.replace("Z", "+00:00")\<close>\<close>
  "replace_Z s = concat (map (\<lambda>c. if c = CHR ''Z'' then ''+00:00'' else [c]) s)"

section \<open>Numbers read from text\<close>

definition digit_val :: "char \<Rightarrow> nat" where
  "digit_val c = (of_char c :: nat) - 48"

definition nat_of_digits :: "string \<Rightarrow> nat" where
  "nat_of_digits s = foldl (\<lambda>a c. 10 * a + digit_val c) 0 s"

definition take_sign :: "string \<Rightarrow> bool \<times> string" where
  \<comment> \<open>An optional leading sign; the flag says the sign was a minus.\<close>
  "take_sign s =
     (if s \<noteq> [] \<and> hd s = CHR ''-'' then (True, tl s)
      else if s \<noteq> [] \<and> hd s = CHR ''+'' then (False, tl s)
      else (False, s))"

definition int_of_str :: "string \<Rightarrow> int option" where
  \<comment> \<open>\<open>int(s)\<close> for text: surrounding whitespace, an optional sign, then decimal digits,
      in groups separated by single underscores. \<open>None\<close> is Python's \<open>ValueError\<close>.\<close>
  "int_of_str s =
     (let (neg, u) = take_sign (strip s); groups = split_on (CHR ''_'') u
      in if list_all (\<lambda>g. g \<noteq> [] \<and> list_all ascii_digit g) groups
         then Some ((if neg then - 1 else 1) * int (nat_of_digits (concat groups)))
         else None)"

definition scale10 :: "rat \<Rightarrow> int \<Rightarrow> rat" where
  "scale10 x k = (if 0 \<le> k then x * 10 ^ nat k else x / 10 ^ nat (- k))"

definition decimal_of_str :: "string \<Rightarrow> rat option" where
  \<comment> \<open>\<open>Decimal(s)\<close> for text, to the value it denotes: whitespace stripped, underscores
      removed, then sign, digits with an optional fraction, and an optional exponent.
      \<open>None\<close> is \<open>decimal.InvalidOperation\<close>. The texts \<open>Infinity\<close> and \<open>NaN\<close>, which
      \<open>Decimal\<close> reads, are \<open>None\<close> as well: every reader below quantizes and then compares,
      and that raises \<open>InvalidOperation\<close> on them too.\<close>
  "decimal_of_str v =
     (let s = filter (\<lambda>c. c \<noteq> CHR ''_'') (strip v);
          (neg, u) = take_sign s;
          is_e = (\<lambda>c. c = CHR ''e'' \<or> c = CHR ''E'');
          mant = takeWhile (\<lambda>c. \<not> is_e c) u;
          ex = dropWhile (\<lambda>c. \<not> is_e c) u;
          ip = takeWhile ascii_digit mant;
          rest = dropWhile ascii_digit mant;
          frac = (if rest = [] then Some []
                  else if hd rest = CHR ''.'' \<and> list_all ascii_digit (tl rest) then Some (tl rest)
                  else None);
          expo = (if ex = [] then Some 0
                  else (let (eneg, ds) = take_sign (tl ex)
                        in if ds \<noteq> [] \<and> list_all ascii_digit ds
                           then Some ((if eneg then - 1 else 1) * int (nat_of_digits ds))
                           else None))
      in case (frac, expo) of
           (Some f, Some k) \<Rightarrow>
             if ip @ f = [] then None
             else Some ((if neg then - 1 else 1) *
                        scale10 (of_nat (nat_of_digits (ip @ f))) (k - int (length f)))
         | _ \<Rightarrow> None)"

section \<open>Decimal arithmetic\<close>

text \<open>
  A finite \<open>Decimal\<close> is modelled by its value, a rational. Products and sums are exact;
  \<open>quantize\<close> raises \<open>InvalidOperation\<close> when the result needs more than the 28 digits of
  the default context. Every amount the producer computes with has passed \<open>quantize\<close> first
  or passes it next, so a product or sum that the context would round is one whose
  \<open>quantize\<close> raises in Python as it does here.
\<close>

definition round_half_up :: "rat \<Rightarrow> int" where
  \<comment> \<open>To the nearest integer, halves away from zero (\<open>ROUND_HALF_UP\<close>).\<close>
  "round_half_up x = (if 0 \<le> x then \<lfloor>x + 1 / 2\<rfloor> else - \<lfloor>- x + 1 / 2\<rfloor>)"

definition quantize :: "rat \<Rightarrow> error + rat" where
  \<comment> \<open>\<open>x.quantize(Decimal("0.01"), rounding=ROUND_HALF_UP)\<close>\<close>
  "quantize x =
     (let c = round_half_up (x * 100)
      in if 10 ^ 28 \<le> \<bar>c\<bar> then Inl InvalidOperation else Inr (of_int c / 100))"

section \<open>Raw values and candidate records\<close>

datatype pyval =
    PNone
  | PBool bool
  | PInt int
  | PDec rat    \<comment> \<open>a finite number object: a \<open>Decimal\<close> or a \<open>float\<close>\<close>
  | PStr string
  | PDict "(string \<times> pyval) list"

text \<open>
  A \<open>dict\<close> is a list of key-value pairs in insertion order (the order is read by
  \<open>validate_or_log\<close>), with no key twice. Where the producer writes the text of a number
  into a record only for \<open>Decimal(...)\<close> to read it back (\<open>str(price)\<close>,
  \<open>format(v, "f")\<close>, \<open>str(round(x, 2))\<close>), the model carries the number, \<open>PDec\<close>.
\<close>

type_synonym payload = "(string \<times> pyval) list"

definition Decimal_str :: "pyval \<Rightarrow> error + rat" where
  \<comment> \<open>\<open>Decimal(str(v))\<close>\<close>
  "Decimal_str v =
     (case v of
        PStr s \<Rightarrow> (case decimal_of_str s of None \<Rightarrow> Inl InvalidOperation | Some q \<Rightarrow> Inr q)
      | PInt n \<Rightarrow> Inr (of_int n)
      | PDec q \<Rightarrow> Inr q
      | _ \<Rightarrow> Inl InvalidOperation)"

definition to_decimal :: "pyval \<Rightarrow> error + rat" where
  "to_decimal v = (case Decimal_str v of Inl e \<Rightarrow> Inl e | Inr q \<Rightarrow> quantize q)"

definition py_int :: "pyval \<Rightarrow> error + int" where
  \<comment> \<open>\<open>int(v)\<close>\<close>
  "py_int v =
     (case v of
        PInt n \<Rightarrow> Inr n
      | PBool b \<Rightarrow> Inr (if b then 1 else 0)
      | PDec q \<Rightarrow> Inr (if 0 \<le> q then \<lfloor>q\<rfloor> else - \<lfloor>- q\<rfloor>)
      | PStr s \<Rightarrow> (case int_of_str s of None \<Rightarrow> Inl ValueError | Some n \<Rightarrow> Inr n)
      | _ \<Rightarrow> Inl TypeError)"


section \<open>The validation layer\<close>

subsection \<open>Field types\<close>

datatype ftype = TStr | TInt | TDecimal | TDict | TLiteral string | TOptional ftype

fun coerce :: "ftype \<Rightarrow> pyval \<Rightarrow> pyval option" where
  \<comment> \<open>pydantic's check of one value against a field's annotation, in its default (lax) mode;
      \<open>None\<close> is a field error. Text is not made from numbers; a \<open>Decimal\<close> is made from
      an \<open>int\<close>, a number or numeric text, an \<open>int\<close> from a \<open>bool\<close>, an integral number
      or integer text (read here as \<open>int(s)\<close> reads it).\<close>
  "coerce TStr v = (case v of PStr s \<Rightarrow> Some (PStr s) | _ \<Rightarrow> None)"
| "coerce TInt v =
     (case v of
        PInt n \<Rightarrow> Some (PInt n)
      | PBool b \<Rightarrow> Some (PInt (if b then 1 else 0))
      | PDec q \<Rightarrow> (if of_int \<lfloor>q\<rfloor> = q then Some (PInt \<lfloor>q\<rfloor>) else None)
      | PStr s \<Rightarrow> map_option PInt (int_of_str s)
      | _ \<Rightarrow> None)"
| "coerce TDecimal v =
     (case v of
        PInt n \<Rightarrow> Some (PDec (of_int n))
      | PDec q \<Rightarrow> Some (PDec q)
      | PStr s \<Rightarrow> map_option PDec (decimal_of_str s)
      | _ \<Rightarrow> None)"
| "coerce TDict v = (case v of PDict d \<Rightarrow> Some (PDict d) | _ \<Rightarrow> None)"
| "coerce (TLiteral l) v = (if v = PStr l then Some v else None)"
| "coerce (TOptional t) v = (if v = PNone then Some PNone else coerce t v)"

subsection \<open>Field validators\<close>

text \<open>
  A validator returns the value to keep, or raises. pydantic turns a \<open>ValueError\<close> into a
  field error of its \<open>ValidationError\<close>; any other exception leaves \<open>model_validate\<close> as it
  is. \<open>fromisoformat_ok s\<close> stands for "\<open>datetime.fromisoformat(s)\<close> returns": the
  standard library's parser is a parameter of the model.
\<close>

definition validate_iso :: "(string \<Rightarrow> bool) \<Rightarrow> pyval \<Rightarrow> error + pyval" where
  \<comment> \<open>\<open>validate_iso\<close> of the Address, Location, Restaurant, Menu, Order and DeliveryAgent
      models and \<open>LoginAuditModel.lastlogin_ok\<close>: a value without \<open>replace\<close> raises inside
      the \<open>try\<close>, which turns every exception into \<open>ValueError\<close>.\<close>
  "validate_iso fromisoformat_ok v =
     (case v of
        PStr s \<Rightarrow> if fromisoformat_ok (replace_Z s) then Inr v else Inl ValueError
      | _ \<Rightarrow> Inl ValueError)"

definition validate_iso_or_none :: "(string \<Rightarrow> bool) \<Rightarrow> pyval \<Rightarrow> error + pyval" where
  \<comment> \<open>\<open>validate_iso\<close> of the Customer and Delivery models: \<open>None\<close> is let through.\<close>
  "validate_iso_or_none fromisoformat_ok v =
     (if v = PNone then Inr v else validate_iso fromisoformat_ok v)"

definition validate_coordinates :: "pyval \<Rightarrow> error + pyval" where
  \<comment> \<open>\<open>float(s)\<close> is read as the decimal value of the text.\<close>
  "validate_coordinates v =
     (case v of
        PStr s \<Rightarrow>
          if s = [] then Inr v
          else (case split_on (CHR '','') s of
                  [a, b] \<Rightarrow>
                    (case (decimal_of_str a, decimal_of_str b) of
                       (Some lat, Some lon) \<Rightarrow>
                         if \<not> (- 90 \<le> lat \<and> lat \<le> 90 \<and> - 180 \<le> lon \<and> lon \<le> 180)
                         then Inl ValueError else Inr v
                     | _ \<Rightarrow> Inl ValueError)
                | _ \<Rightarrow> Inl ValueError)
      | _ \<Rightarrow> Inr v)"

definition validate_pincode :: "pyval \<Rightarrow> error + pyval" where
  "validate_pincode v =
     (case v of
        PInt n \<Rightarrow> if n \<noteq> 0 \<and> (n < 100000 \<or> n > 999999) then Inl ValueError else Inr v
      | _ \<Rightarrow> Inr v)"

definition name_nonempty :: "nat \<Rightarrow> pyval \<Rightarrow> error + pyval" where
  \<comment> \<open>\<open>RestaurantModel.name_nonempty\<close> (limit 200) and \<open>MenuModel.itemname_nonempty\<close>
      (limit 150).\<close>
  "name_nonempty limit v =
     (case v of
        PStr s \<Rightarrow>
          (let w = strip s
           in if w = [] then Inl ValueError
              else if length w > limit then Inl ValueError
              else Inr (PStr w))
      | _ \<Rightarrow> Inr v)"

definition validate_price :: "pyval \<Rightarrow> error + pyval" where
  \<comment> \<open>\<open>RestaurantModel.validate_price\<close> and \<open>MenuModel.validate_price\<close>, run on the
      \<open>Decimal\<close> pydantic made.\<close>
  "validate_price v =
     (case v of
        PDec q \<Rightarrow>
          if q \<le> 0 then Inl ValueError
          else (case to_decimal v of Inl e \<Rightarrow> Inl e | Inr d \<Rightarrow> Inr (PDec d))
      | _ \<Rightarrow> Inr v)"

definition quantity_positive :: "pyval \<Rightarrow> error + pyval" where
  "quantity_positive v =
     (case py_int v of
        Inl e \<Rightarrow> Inl e
      | Inr n \<Rightarrow> if n \<le> 0 then Inl ValueError else Inr (PInt n))"

definition decimal_positive :: "pyval \<Rightarrow> error + pyval" where
  \<comment> \<open>\<open>OrderItemModel.decimal_positive\<close> and \<open>OrderModel.total_positive\<close>\<close>
  "decimal_positive v =
     (case to_decimal v of
        Inl e \<Rightarrow> Inl e
      | Inr d \<Rightarrow> if d < 0 then Inl ValueError else Inr (PDec d))"

definition rating_ok :: "pyval \<Rightarrow> error + pyval" where
  "rating_ok v =
     (if v = PNone then Inr v
      else (case to_decimal v of
              Inl e \<Rightarrow> Inl e
            | Inr d \<Rightarrow> if d < 0 \<or> d > 5 then Inl ValueError else Inr (PDec d)))"

definition mobile_field :: "pyval \<Rightarrow> error + pyval" where
  \<comment> \<open>\<open>validate_mobile\<close> as it runs on the \<open>str\<close> field.\<close>
  "mobile_field v =
     (case v of
        PStr s \<Rightarrow> (case validate_mobile s of Inl e \<Rightarrow> Inl e | Inr r \<Rightarrow> Inr (PStr r))
      | _ \<Rightarrow> Inr v)"

definition check_subtotal :: "rat \<Rightarrow> int \<Rightarrow> rat \<Rightarrow> error + unit" where
  \<comment> \<open>\<open>OrderItemModel.check_subtotal\<close> on the validated \<open>price\<close>, \<open>quantity\<close>,
      \<open>subtotal\<close>.\<close>
  "check_subtotal price quantity subtotal =
     (case quantize (price * of_int quantity) of
        Inl e \<Rightarrow> Inl e
      | Inr expected \<Rightarrow>
          if subtotal \<noteq> expected \<and> subtotal < expected - 1 / 100
          then Inl ValueError else Inr ())"


subsection \<open>Models\<close>

record field =
  fname :: string
  before :: "pyval \<Rightarrow> error + pyval"   \<comment> \<open>the \<open>mode="before"\<close> validator\<close>
  ftyp :: ftype
  after :: "pyval \<Rightarrow> error + pyval"    \<comment> \<open>the validator run on the typed value\<close>
  fdefault :: "pyval option"

definition plain :: "string \<Rightarrow> ftype \<Rightarrow> field" where
  "plain n t = \<lparr>fname = n, before = Inr, ftyp = t, after = Inr, fdefault = None\<rparr>"

definition with_before :: "string \<Rightarrow> (pyval \<Rightarrow> error + pyval) \<Rightarrow> ftype \<Rightarrow> field" where
  "with_before n b t = \<lparr>fname = n, before = b, ftyp = t, after = Inr, fdefault = None\<rparr>"

definition with_after :: "string \<Rightarrow> ftype \<Rightarrow> (pyval \<Rightarrow> error + pyval) \<Rightarrow> field" where
  "with_after n t a = \<lparr>fname = n, before = Inr, ftyp = t, after = a, fdefault = None\<rparr>"

definition type_tag :: "string \<Rightarrow> field" where
  \<comment> \<open>\<open>type: Literal[l] = l\<close>\<close>
  "type_tag l = \<lparr>fname = ''type'', before = Inr, ftyp = TLiteral l, after = Inr,
                  fdefault = Some (PStr l)\<rparr>"

datatype model_cls =
    CustomerModel | AddressModel | LocationModel | RestaurantModel | MenuModel
  | OrderItemModel | OrderModel | DeliveryAgentModel | DeliveryModel | LoginAuditModel

fun model_fields :: "(string \<Rightarrow> bool) \<Rightarrow> model_cls \<Rightarrow> field list" where
  "model_fields fromiso CustomerModel =
     [type_tag ''customer'',
      plain ''customer_id'' TStr,
      plain ''name'' TStr,
      with_after ''mobile'' TStr mobile_field,
      plain ''email'' TStr,
      plain ''loginbyusing'' (TOptional TStr),
      plain ''gender'' (TOptional TStr),
      with_before ''dob'' (validate_iso_or_none fromiso) (TOptional TStr),
      plain ''preferences'' (TOptional TDict),
      with_before ''created_date'' (validate_iso_or_none fromiso) TStr]"
| "model_fields fromiso AddressModel =
     [type_tag ''customeraddressbook'',
      plain ''address_id'' TStr,
      plain ''customer_id'' TStr,
      plain ''flatno'' (TOptional TStr),
      plain ''houseno'' (TOptional TStr),
      plain ''floor'' (TOptional TStr),
      plain ''building'' (TOptional TStr),
      plain ''landmark'' (TOptional TStr),
      with_after ''coordinates'' (TOptional TStr) validate_coordinates,
      plain ''primaryflag'' (TOptional TStr),
      plain ''address_type'' (TOptional TStr),
      plain ''locality'' (TOptional TStr),
      plain ''city'' (TOptional TStr),
      plain ''state'' (TOptional TStr),
      with_after ''pincode'' (TOptional TInt) validate_pincode,
      with_before ''created_date'' (validate_iso fromiso) TStr]"
| "model_fields fromiso LocationModel =
     [type_tag ''location'',
      plain ''location_id'' TStr,
      plain ''city'' TStr,
      plain ''state'' TStr,
      plain ''zipcode'' (TOptional TStr),
      plain ''activeflag'' (TOptional TStr),
      with_before ''created_date'' (validate_iso fromiso) TStr]"
| "model_fields fromiso RestaurantModel =
     [type_tag ''restaurant'',
      plain ''restaurant_id'' TStr,
      with_after ''name'' TStr (name_nonempty 200),
      plain ''cuisine_type'' (TOptional TStr),
      with_after ''pricing_for_2'' TDecimal validate_price,
      plain ''location_id'' (TOptional TStr),
      with_before ''created_date'' (validate_iso fromiso) TStr]"
| "model_fields fromiso MenuModel =
     [type_tag ''menu'',
      plain ''menu_id'' TStr,
      plain ''restaurant_id'' TStr,
      with_after ''itemname'' TStr (name_nonempty 150),
      plain ''description'' (TOptional TStr),
      with_after ''price'' TDecimal validate_price,
      plain ''activeflag'' (TOptional TStr),
      with_before ''created_date'' (validate_iso fromiso) TStr]"
| "model_fields fromiso OrderItemModel =
     [type_tag ''orderitem'',
      plain ''orderitem_id'' TStr,
      plain ''order_id'' TStr,
      plain ''menu_id'' TStr,
      with_before ''quantity'' quantity_positive TInt,
      with_before ''price'' decimal_positive TDecimal,
      with_before ''subtotal'' decimal_positive TDecimal]"
| "model_fields fromiso OrderModel =
     [type_tag ''orders'',
      plain ''order_id'' TStr,
      plain ''customer_id'' TStr,
      plain ''restaurant_id'' TStr,
      with_before ''order_date'' (validate_iso fromiso) TStr,
      with_before ''totalamount'' decimal_positive TDecimal,
      plain ''status'' (TOptional TStr),
      plain ''paymentmethod'' (TOptional TStr),
      with_before ''created_date'' (validate_iso fromiso) TStr]"
| "model_fields fromiso DeliveryAgentModel =
     [type_tag ''deliveryagent'',
      plain ''deliveryagent_id'' TStr,
      plain ''name'' TStr,
      with_after ''phone'' TStr mobile_field,
      plain ''vehicle_type'' (TOptional TStr),
      plain ''location_id'' (TOptional TStr),
      plain ''status'' (TOptional TStr),
      with_before ''rating'' rating_ok (TOptional TDecimal),
      with_before ''created_date'' (validate_iso fromiso) TStr]"
| "model_fields fromiso DeliveryModel =
     [type_tag ''delivery'',
      plain ''delivery_id'' TStr,
      plain ''order_id'' TStr,
      plain ''deliveryagent_id'' TStr,
      plain ''deliverystatus'' (TOptional TStr),
      plain ''estimated_time'' (TOptional TStr),
      plain ''address_id'' TStr,
      with_before ''delivery_date'' (validate_iso_or_none fromiso) (TOptional TStr),
      with_before ''created_date'' (validate_iso_or_none fromiso) TStr]"
| "model_fields fromiso LoginAuditModel =
     [type_tag ''loginaudit'',
      plain ''login_id'' TStr,
      plain ''customer_id'' TStr,
      plain ''logintype'' (TOptional TStr),
      plain ''deviceinterface'' (TOptional TStr),
      plain ''mobiledevicename'' (TOptional TStr),
      plain ''webinterface'' (TOptional TStr),
      with_before ''lastlogin'' (validate_iso fromiso) (TOptional TStr)]"

subsection \<open>Running a model\<close>

definition caught :: "error + pyval \<Rightarrow> error + pyval option" where
  \<comment> \<open>What pydantic does with a validator's outcome: \<open>ValueError\<close> becomes a field error
      (\<open>Inr None\<close>), another exception goes on (\<open>Inl\<close>).\<close>
  "caught r =
     (case r of
        Inl e \<Rightarrow> if e = ValueError then Inr None else Inl e
      | Inr v \<Rightarrow> Inr (Some v))"

definition run_field :: "field \<Rightarrow> payload \<Rightarrow> error + pyval option" where
  \<comment> \<open>One field: a missing key takes the default, or is a field error without one; a
      present value goes through the before-validator, the type, the after-validator.\<close>
  "run_field f p =
     (case map_of p (fname f) of
        None \<Rightarrow> Inr (fdefault f)
      | Some raw \<Rightarrow>
          (case caught (before f raw) of
             Inl e \<Rightarrow> Inl e
           | Inr None \<Rightarrow> Inr None
           | Inr (Some v) \<Rightarrow>
               (case coerce (ftyp f) v of
                  None \<Rightarrow> Inr None
                | Some w \<Rightarrow> caught (after f w))))"

fun validate_fields :: "field list \<Rightarrow> payload \<Rightarrow> error + payload option" where
  \<comment> \<open>The fields in declaration order. Field errors are collected (\<open>Inr None\<close> in the end);
      an exception that is not a \<open>ValueError\<close> ends the run where it is raised.\<close>
  "validate_fields [] p = Inr (Some [])"
| "validate_fields (f # fs) p =
     (case run_field f p of
        Inl e \<Rightarrow> Inl e
      | Inr r \<Rightarrow>
          (case validate_fields fs p of
             Inl e \<Rightarrow> Inl e
           | Inr rest \<Rightarrow>
               Inr (case (r, rest) of
                      (Some v, Some d) \<Rightarrow> Some ((fname f, v) # d)
                    | _ \<Rightarrow> None)))"

definition model_after :: "model_cls \<Rightarrow> payload \<Rightarrow> error + payload" where
  \<comment> \<open>The \<open>model_validator(mode="after")\<close>: only \<open>OrderItemModel\<close> has one.\<close>
  "model_after cls d =
     (if cls = OrderItemModel then
        (case (map_of d ''price'', map_of d ''quantity'', map_of d ''subtotal'') of
           (Some (PDec price), Some (PInt quantity), Some (PDec subtotal)) \<Rightarrow>
             (case check_subtotal price quantity subtotal of
                Inl e \<Rightarrow> Inl (if e = ValueError then ValidationError else e)
              | Inr u \<Rightarrow> Inr d)
         | _ \<Rightarrow> Inr d)
      else Inr d)"

definition model_validate :: "(string \<Rightarrow> bool) \<Rightarrow> model_cls \<Rightarrow> payload \<Rightarrow> error + payload" where
  \<comment> \<open>\<open>model_cls.model_validate(payload)\<close> followed by \<open>model_dump()\<close>: the validated
      fields in declaration order, or the exception raised.\<close>
  "model_validate fromiso cls p =
     (case validate_fields (model_fields fromiso cls) p of
        Inl e \<Rightarrow> Inl e
      | Inr None \<Rightarrow> Inl ValidationError
      | Inr (Some d) \<Rightarrow> model_after cls d)"

definition diagnostic_id :: "payload \<Rightarrow> error + pyval" where
  \<comment> \<open>\<open>payload.get(list(payload.keys())[1], 'unknown')\<close>, the identifying value printed
      with a validation failure.\<close>
  "diagnostic_id p =
     (if length p < 2 then Inl IndexError
      else Inr (case map_of p (fst (p ! 1)) of None \<Rightarrow> PStr ''unknown'' | Some v \<Rightarrow> v))"

definition validate_or_log :: "(string \<Rightarrow> bool) \<Rightarrow> payload \<Rightarrow> model_cls \<Rightarrow> error + payload option" where
  \<comment> \<open>\<open>Inr (Some d)\<close>: the validated record; \<open>Inr None\<close>: the failure was printed to stderr
      and \<open>None\<close> returned; \<open>Inl e\<close>: the call ended with exception \<open>e\<close>. Only
      \<open>ValidationError\<close> is caught, and the handler computes the identifying value before
      it prints. A \<open>Decimal\<close> of the dump is replaced by its text \<open>format(v, "f")\<close>, which
      the model carries as the number.\<close>
  "validate_or_log fromiso p cls =
     (case model_validate fromiso cls p of
        Inr d \<Rightarrow> Inr (Some d)
      | Inl e \<Rightarrow>
          if e = ValidationError
          then (case diagnostic_id p of Inl e' \<Rightarrow> Inl e' | Inr i \<Rightarrow> Inr None)
          else Inl e)"

section \<open>Randomness and the clock\<close>

text \<open>
  The producer draws from \<open>random\<close>, \<open>uuid\<close>, \<open>faker\<close> and the clock. The model reads
  these draws from a tape, one entry per call, so that a run is a function of its tape;
  an exhausted tape, or an entry of the other kind, reads as \<open>0\<close> or the empty text.
\<close>

datatype draw = DInt int | DStr string

type_synonym tape = "draw list"

definition next_int :: "tape \<Rightarrow> int \<times> tape" where
  "next_int t =
     (case t of [] \<Rightarrow> (0, []) | d # r \<Rightarrow> (case d of DInt n \<Rightarrow> (n, r) | DStr s \<Rightarrow> (0, r)))"

definition next_str :: "tape \<Rightarrow> string \<times> tape" where
  \<comment> \<open>\<open>str(uuid.uuid4())\<close>, \<open>now_iso()\<close> and the texts of \<open>faker\<close>\<close>
  "next_str t =
     (case t of [] \<Rightarrow> ([], []) | d # r \<Rightarrow> (case d of DStr s \<Rightarrow> (s, r) | DInt n \<Rightarrow> ([], r)))"

definition randint :: "int \<Rightarrow> int \<Rightarrow> tape \<Rightarrow> int \<times> tape" where
  \<comment> \<open>\<open>random.randint(a, b)\<close>, for \<open>a \<le> b\<close>\<close>
  "randint a b t = (let (n, r) = next_int t in (a + n mod (b - a + 1), r))"

definition choice :: "'a list \<Rightarrow> tape \<Rightarrow> 'a \<times> tape" where
  \<comment> \<open>\<open>random.choice(xs)\<close> on a sequence that is not empty\<close>
  "choice xs t = (let (n, r) = next_int t in (xs ! nat (n mod int (length xs)), r))"

definition random_choice :: "'a list \<Rightarrow> tape \<Rightarrow> error + 'a \<times> tape" where
  \<comment> \<open>\<open>random.choice(xs)\<close> on a pool that may be empty\<close>
  "random_choice xs t = (if xs = [] then Inl IndexError else Inr (choice xs t))"

fun choices :: "'a list \<Rightarrow> nat \<Rightarrow> tape \<Rightarrow> 'a list \<times> tape" where
  \<comment> \<open>\<open>random.choices(xs, k=k)\<close>\<close>
  "choices xs 0 t = ([], t)"
| "choices xs (Suc k) t =
     (let (x, t1) = choice xs t; (ys, t2) = choices xs k t1 in (x # ys, t2))"

fun sample :: "'a list \<Rightarrow> nat \<Rightarrow> tape \<Rightarrow> 'a list \<times> tape" where
  \<comment> \<open>\<open>random.sample(xs, k=k)\<close>, for \<open>k \<le> len(xs)\<close>: \<open>k\<close> positions, none twice\<close>
  "sample xs 0 t = ([], t)"
| "sample xs (Suc k) t =
     (if xs = [] then ([], t)
      else (let (n, t1) = next_int t;
                i = nat (n mod int (length xs));
                (ys, t2) = sample (take i xs @ drop (Suc i) xs) k t1
            in (xs ! i # ys, t2)))"

definition uniform :: "rat \<Rightarrow> rat \<Rightarrow> tape \<Rightarrow> rat \<times> tape" where
  \<comment> \<open>\<open>random.uniform(a, b)\<close>, as the number its text denotes: \<open>a + (b - a) * random()\<close>
      with \<open>random()\<close> in \<open>[0, 1)\<close>\<close>
  "uniform a b t =
     (let (n, r) = next_int t in (a + (b - a) * (of_int (n mod 1000000) / 1000000), r))"

definition random_random :: "tape \<Rightarrow> rat \<times> tape" where
  "random_random t = uniform 0 1 t"

definition py_round :: "rat \<Rightarrow> nat \<Rightarrow> rat" where
  \<comment> \<open>\<open>round(x, k)\<close> for a positive \<open>float\<close>: a number with \<open>k\<close> fractional digits next to
      \<open>x\<close>\<close>
  "py_round x k = of_int \<lfloor>x * 10 ^ k + 1 / 2\<rfloor> / 10 ^ k"

fun digits :: "nat \<Rightarrow> string" where
  \<comment> \<open>\<open>str(n)\<close> for \<open>n \<ge> 0\<close>\<close>
  "digits n =
     (if n < 10 then [char_of (48 + n)] else digits (n div 10) @ [char_of (48 + n mod 10)])"

declare digits.simps [simp del]

definition str_int :: "int \<Rightarrow> string" where
  "str_int i = (if i < 0 then CHR ''-'' # digits (nat (- i)) else digits (nat i))"

definition random_phone_india :: "tape \<Rightarrow> string \<times> tape" where
  "random_phone_india t =
     (let (c, t1) = choice ''6789'' t; (ds, t2) = choices ''0123456789'' 9 t1 in (c # ds, t2))"

definition fake_postcode :: "tape \<Rightarrow> string \<times> tape" where
  \<comment> \<open>\<open>fake.postcode()\<close> of the \<open>en_IN\<close> locale: six digits\<close>
  "fake_postcode t = choices ''0123456789'' 6 t"

section \<open>Reading records\<close>

definition item :: "payload \<Rightarrow> string \<Rightarrow> pyval" where
  \<comment> \<open>\<open>d[k]\<close> and \<open>d.get(k)\<close> on a record that the producer built or validated itself with
      key \<open>k\<close>; \<open>d.get(k)\<close> is \<open>None\<close> without the key.\<close>
  "item d k = (case map_of d k of None \<Rightarrow> PNone | Some v \<Rightarrow> v)"

definition chars :: "pyval \<Rightarrow> string" where
  \<comment> \<open>The characters of a \<open>str\<close> value, where the producer calls a string method on a
      field it has filled with a \<open>str\<close>.\<close>
  "chars v = (case v of PStr s \<Rightarrow> s | _ \<Rightarrow> [])"

definition truthy :: "pyval \<Rightarrow> bool" where
  \<comment> \<open>Python's truth value\<close>
  "truthy v =
     (case v of PNone \<Rightarrow> False | PBool b \<Rightarrow> b | PInt n \<Rightarrow> n \<noteq> 0 | PDec q \<Rightarrow> q \<noteq> 0
      | PStr s \<Rightarrow> s \<noteq> [] | PDict d \<Rightarrow> d \<noteq> [])"

section \<open>The uniqueness registry\<close>

record registry =
  existing_customer_mobiles :: "pyval set"
  existing_customer_emails :: "string set"
  existing_customer_name_dob :: "(string \<times> pyval) set"
  existing_agent_phones :: "pyval set"
  existing_restaurant_keys :: "(string \<times> pyval) set"
  existing_menu_keys :: "(pyval \<times> string) set"

definition empty_registry :: registry where
  \<comment> \<open>the six sets at the start of the process\<close>
  "empty_registry =
     \<lparr>existing_customer_mobiles = {}, existing_customer_emails = {},
      existing_customer_name_dob = {}, existing_agent_phones = {},
      existing_restaurant_keys = {}, existing_menu_keys = {}\<rparr>"

definition MAX_UNIQUENESS_ATTEMPTS :: nat where
  "MAX_UNIQUENESS_ATTEMPTS = 20"

section \<open>Entity factories\<close>

type_synonym made = "error + (payload option \<times> registry \<times> tape)"

fun attempts :: "nat \<Rightarrow> (registry \<Rightarrow> tape \<Rightarrow> made) \<Rightarrow> registry \<Rightarrow> tape \<Rightarrow> made" where
  \<comment> \<open>\<open>for _ in range(n): body\<close> followed by the warning and \<open>return None\<close>. The body's
      \<open>Some\<close> is its \<open>return valid\<close>, its \<open>None\<close> a \<open>continue\<close>.\<close>
  "attempts 0 body reg t = Inr (None, reg, t)"
| "attempts (Suc n) body reg t =
     (case body reg t of
        Inl e \<Rightarrow> Inl e
      | Inr (None, reg', t') \<Rightarrow> attempts n body reg' t'
      | Inr (Some valid, reg', t') \<Rightarrow> Inr (Some valid, reg', t'))"

fun iterations :: "nat \<Rightarrow> (registry \<Rightarrow> tape \<Rightarrow> made) \<Rightarrow> registry \<Rightarrow> tape \<Rightarrow> nat" where
  \<comment> \<open>how many times \<open>attempts\<close> runs the body\<close>
  "iterations 0 body reg t = 0"
| "iterations (Suc n) body reg t =
     (case body reg t of
        Inl e \<Rightarrow> 1
      | Inr (None, reg', t') \<Rightarrow> 1 + iterations n body reg' t'
      | Inr (Some valid, reg', t') \<Rightarrow> 1)"

fun attempt_tape :: "(registry \<Rightarrow> tape \<Rightarrow> made) \<Rightarrow> registry \<Rightarrow> tape \<Rightarrow> nat \<Rightarrow> tape" where
  \<comment> \<open>the tape as attempt number \<open>i\<close> (counted from 0) finds it, after the attempts
      before it\<close>
  "attempt_tape body reg t 0 = t"
| "attempt_tape body reg t (Suc i) =
     (case body reg (attempt_tape body reg t i) of
        Inl e \<Rightarrow> attempt_tape body reg t i
      | Inr (r, reg', t') \<Rightarrow> t')"

definition retries :: "nat \<Rightarrow> (registry \<Rightarrow> tape \<Rightarrow> made) \<Rightarrow> (registry \<Rightarrow> tape \<Rightarrow> made) \<Rightarrow> bool" where
  \<comment> \<open>What it is for \<open>factory\<close> to retry \<open>body\<close> up to \<open>n\<close> times: on every call some
      number \<open>k \<le> n\<close> of attempts fail, each returning \<open>None\<close> and leaving the registry as
      it was; if \<open>k = n\<close> the factory returns \<open>None\<close>, the registry unchanged, after these
      \<open>n\<close> attempts; otherwise attempt number \<open>k\<close> returns a record and the factory returns
      that record, registry and tape, making no further attempt.\<close>
  "retries n body factory =
     (\<forall>reg t. \<exists>k \<le> n.
        (\<forall>i < k. body reg (attempt_tape body reg t i)
                    = Inr (None, reg, attempt_tape body reg t (Suc i)))
        \<and> (if k = n then factory reg t = Inr (None, reg, attempt_tape body reg t n)
            else (\<exists>valid reg' t'.
                    body reg (attempt_tape body reg t k) = Inr (Some valid, reg', t')
                    \<and> factory reg t = Inr (Some valid, reg', t'))))"

subsection \<open>Customers\<close>

definition make_customer_candidate :: "pyval \<Rightarrow> tape \<Rightarrow> payload \<times> tape" where
  "make_customer_candidate customer_id t =
     (let (cid, t1) = (if truthy customer_id then (customer_id, t)
                       else (let (u, r) = next_str t in (PStr u, r)));
          (name, t2) = next_str t1;
          (domain, t3) = choice [''gmail'', ''outlook'', ''hotmail'', ''icloud''] t2;
          (k, t4) = randint 1 9999 t3;
          email = strip (lower name) @ str_int k @ ''@'' @ domain @ ''.com'';
          (mobile, t5) = random_phone_india t4;
          (loginbyusing, t6) = choice [''OTP'', ''Google'', ''Facebook'', ''Email''] t5;
          (gender, t7) = choice [''Male'', ''Female'', ''Other''] t6;
          (dob, t8) = next_str t7;
          (vegan, t9) = choice [True, False] t8;
          (spicy, t10) = choice [''low'', ''medium'', ''high''] t9;
          (created_date, t11) = next_str t10
      in ([(''type'', PStr ''customer''),
           (''customer_id'', cid),
           (''name'', PStr name),
           (''mobile'', PStr mobile),
           (''email'', PStr email),
           (''loginbyusing'', PStr loginbyusing),
           (''gender'', PStr gender),
           (''dob'', PStr dob),
           (''preferences'', PDict [(''vegan'', PBool vegan), (''spicy'', PStr spicy)]),
           (''created_date'', PStr created_date)], t11))"

definition customer_attempt :: "(string \<Rightarrow> bool) \<Rightarrow> pyval \<Rightarrow> registry \<Rightarrow> tape \<Rightarrow> made" where
  \<comment> \<open>the body of the loop of \<open>make_customer_unique\<close>\<close>
  "customer_attempt fromiso customer_id reg t =
     (let (payload, t1) = make_customer_candidate customer_id t;
          mobile = item payload ''mobile'';
          email = lower (chars (item payload ''email''));
          name_dob = (lower (strip (chars (item payload ''name''))), item payload ''dob'')
      in if mobile \<in> existing_customer_mobiles reg
            \<or> email \<in> existing_customer_emails reg
            \<or> name_dob \<in> existing_customer_name_dob reg
         then Inr (None, reg, t1)
         else (case validate_or_log fromiso payload CustomerModel of
                 Inl e \<Rightarrow> Inl e
               | Inr None \<Rightarrow> Inr (None, reg, t1)
               | Inr (Some valid) \<Rightarrow>
                   Inr (Some valid,
                        reg\<lparr>existing_customer_mobiles :=
                              insert (item valid ''mobile'') (existing_customer_mobiles reg),
                            existing_customer_emails :=
                              insert (lower (chars (item valid ''email'')))
                                (existing_customer_emails reg),
                            existing_customer_name_dob :=
                              insert (lower (strip (chars (item valid ''name''))), item valid ''dob'')
                                (existing_customer_name_dob reg)\<rparr>,
                        t1)))"

definition make_customer_unique :: "(string \<Rightarrow> bool) \<Rightarrow> pyval \<Rightarrow> registry \<Rightarrow> tape \<Rightarrow> made" where
  "make_customer_unique fromiso customer_id =
     attempts MAX_UNIQUENESS_ATTEMPTS (customer_attempt fromiso customer_id)"

subsection \<open>Restaurants\<close>

definition restaurant_attempt :: "(string \<Rightarrow> bool) \<Rightarrow> registry \<Rightarrow> tape \<Rightarrow> made" where
  \<comment> \<open>the body of the loop of \<open>make_restaurant_unique\<close>; the draws of the payload are made
      only when the key is new\<close>
  "restaurant_attempt fromiso reg t =
     (let (location_id, t1) = next_str t;
          (name, t2) = next_str t1;
          key = (lower (strip name), PStr location_id)
      in if key \<in> existing_restaurant_keys reg then Inr (None, reg, t2)
         else (let (restaurant_id, t3) = next_str t2;
                   (cuisine_type, t4) =
                     choice [''Indian'', ''Chinese'', ''Italian'', ''Fast Food'', ''Mexican''] t3;
                   (u, t5) = uniform 100 2000 t4;
                   (created_date, t6) = next_str t5;
                   payload = [(''type'', PStr ''restaurant''),
                              (''restaurant_id'', PStr restaurant_id),
                              (''name'', PStr name),
                              (''cuisine_type'', PStr cuisine_type),
                              (''pricing_for_2'', PDec (py_round u 2)),
                              (''location_id'', PStr location_id),
                              (''created_date'', PStr created_date)]
               in case validate_or_log fromiso payload RestaurantModel of
                    Inl e \<Rightarrow> Inl e
                  | Inr None \<Rightarrow> Inr (None, reg, t6)
                  | Inr (Some valid) \<Rightarrow>
                      Inr (Some valid,
                           reg\<lparr>existing_restaurant_keys :=
                                 insert (lower (strip (chars (item valid ''name''))),
                                         item valid ''location_id'')
                                   (existing_restaurant_keys reg)\<rparr>,
                           t6)))"

definition make_restaurant_unique :: "(string \<Rightarrow> bool) \<Rightarrow> registry \<Rightarrow> tape \<Rightarrow> made" where
  "make_restaurant_unique fromiso =
     attempts MAX_UNIQUENESS_ATTEMPTS (restaurant_attempt fromiso)"

subsection \<open>Menu items\<close>

definition menu_attempt :: "(string \<Rightarrow> bool) \<Rightarrow> pyval \<Rightarrow> registry \<Rightarrow> tape \<Rightarrow> made" where
  \<comment> \<open>the body of the loop of \<open>make_menu_unique\<close>; \<open>word\<close> is \<open>fake.word().title()\<close> and
      \<open>food\<close> what \<open>getattr(fake, "food", lambda: "Item")()\<close> gives\<close>
  "menu_attempt fromiso restaurant_id reg t =
     (let (word, t1) = next_str t;
          (food, t2) = next_str t1;
          itemname = strip (word @ '' '' @ food);
          key = (restaurant_id, lower (strip itemname))
      in if key \<in> existing_menu_keys reg then Inr (None, reg, t2)
         else (let (menu_id, t3) = next_str t2;
                   (description, t4) = next_str t3;
                   (u, t5) = uniform 50 800 t4;
                   (activeflag, t6) = choice [''Y'', ''N''] t5;
                   (created_date, t7) = next_str t6;
                   payload = [(''type'', PStr ''menu''),
                              (''menu_id'', PStr menu_id),
                              (''restaurant_id'', restaurant_id),
                              (''itemname'', PStr itemname),
                              (''description'', PStr description),
                              (''price'', PDec (py_round u 2)),
                              (''activeflag'', PStr activeflag),
                              (''created_date'', PStr created_date)]
               in case validate_or_log fromiso payload MenuModel of
                    Inl e \<Rightarrow> Inl e
                  | Inr None \<Rightarrow> Inr (None, reg, t7)
                  | Inr (Some valid) \<Rightarrow>
                      Inr (Some valid,
                           reg\<lparr>existing_menu_keys :=
                                 insert (item valid ''restaurant_id'',
                                         lower (strip (chars (item valid ''itemname''))))
                                   (existing_menu_keys reg)\<rparr>,
                           t7)))"

definition make_menu_unique :: "(string \<Rightarrow> bool) \<Rightarrow> pyval \<Rightarrow> registry \<Rightarrow> tape \<Rightarrow> made" where
  "make_menu_unique fromiso restaurant_id =
     attempts MAX_UNIQUENESS_ATTEMPTS (menu_attempt fromiso restaurant_id)"

subsection \<open>Delivery agents\<close>

definition deliveryagent_attempt :: "(string \<Rightarrow> bool) \<Rightarrow> registry \<Rightarrow> tape \<Rightarrow> made" where
  \<comment> \<open>the body of the loop of \<open>make_deliveryagent_unique\<close>\<close>
  "deliveryagent_attempt fromiso reg t =
     (let (phone, t1) = random_phone_india t
      in if PStr phone \<in> existing_agent_phones reg then Inr (None, reg, t1)
         else (let (deliveryagent_id, t2) = next_str t1;
                   (name, t3) = next_str t2;
                   (vehicle_type, t4) = choice [''bike'', ''scooter'', ''car''] t3;
                   (location_id, t5) = next_str t4;
                   (status, t6) = choice [''available'', ''busy'', ''offline''] t5;
                   (u, t7) = uniform 1 5 t6;
                   (created_date, t8) = next_str t7;
                   payload = [(''type'', PStr ''deliveryagent''),
                              (''deliveryagent_id'', PStr deliveryagent_id),
                              (''name'', PStr name),
                              (''phone'', PStr phone),
                              (''vehicle_type'', PStr vehicle_type),
                              (''location_id'', PStr location_id),
                              (''status'', PStr status),
                              (''rating'', PDec (py_round u 1)),
                              (''created_date'', PStr created_date)]
               in case validate_or_log fromiso payload DeliveryAgentModel of
                    Inl e \<Rightarrow> Inl e
                  | Inr None \<Rightarrow> Inr (None, reg, t8)
                  | Inr (Some valid) \<Rightarrow>
                      Inr (Some valid,
                           reg\<lparr>existing_agent_phones :=
                                 insert (item valid ''phone'') (existing_agent_phones reg)\<rparr>,
                           t8)))"

definition make_deliveryagent_unique :: "(string \<Rightarrow> bool) \<Rightarrow> registry \<Rightarrow> tape \<Rightarrow> made" where
  "make_deliveryagent_unique fromiso =
     attempts MAX_UNIQUENESS_ATTEMPTS (deliveryagent_attempt fromiso)"

subsection \<open>Addresses, login audits, deliveries\<close>

definition make_address :: "(string \<Rightarrow> bool) \<Rightarrow> pyval \<Rightarrow> tape \<Rightarrow> error + (payload option \<times> tape)" where
  \<comment> \<open>\<open>coordinates\<close> is the text \<open>f"{fake.latitude()},{fake.longitude()}"\<close>, one draw. The
      three calls of \<open>fake.postcode()\<close> are three draws: two in the condition (the second
      only if the first is all digits), one under \<open>int\<close>, which raises \<open>ValueError\<close> on a
      text that is no integer.\<close>
  "make_address fromiso customer_id t =
     (let (address_id, t1) = next_str t;
          (flatno, t2) = randint 1 500 t1;
          (houseno, t3) = randint 1 2000 t2;
          (floor, t4) = randint 0 40 t3;
          (building, t5) = next_str t4;
          (landmark, t6) = next_str t5;
          (coordinates, t7) = next_str t6;
          (primaryflag, t8) = choice [''Y'', ''N''] t7;
          (address_type, t9) = choice [''Home'', ''Work''] t8;
          (locality, t10) = next_str t9;
          (city, t11) = next_str t10;
          (state, t12) = next_str t11;
          (p1, t13) = fake_postcode t12;
          (cond, t14) = (if isdigit p1
                         then (let (p2, r) = fake_postcode t13 in (length p2 = 6, r))
                         else (False, t13));
          (pincode, t15) = (if cond
                            then (let (p3, r) = fake_postcode t14
                                  in (case int_of_str p3 of
                                        None \<Rightarrow> Inl ValueError | Some n \<Rightarrow> Inr n, r))
                            else (let (n, r) = randint 100000 999999 t14 in (Inr n, r)));
          (created_date, t16) = next_str t15
      in case pincode of
           Inl e \<Rightarrow> Inl e
         | Inr pin \<Rightarrow>
             (case validate_or_log fromiso
                     [(''type'', PStr ''customeraddressbook''),
                      (''address_id'', PStr address_id),
                      (''customer_id'', customer_id),
                      (''flatno'', PStr (str_int flatno)),
                      (''houseno'', PStr (str_int houseno)),
                      (''floor'', PInt floor),
                      (''building'', PStr building),
                      (''landmark'', PStr landmark),
                      (''coordinates'', PStr coordinates),
                      (''primaryflag'', PStr primaryflag),
                      (''address_type'', PStr address_type),
                      (''locality'', PStr locality),
                      (''city'', PStr city),
                      (''state'', PStr state),
                      (''pincode'', PInt pin),
                      (''created_date'', PStr created_date)] AddressModel of
                Inl e \<Rightarrow> Inl e
              | Inr r \<Rightarrow> Inr (r, t16)))"

definition make_loginaudit :: "(string \<Rightarrow> bool) \<Rightarrow> pyval \<Rightarrow> tape \<Rightarrow> error + (payload option \<times> tape)" where
  "make_loginaudit fromiso customer_id t =
     (let (login_id, t1) = next_str t;
          (logintype, t2) = choice [''web'', ''mobile''] t1;
          (deviceinterface, t3) = choice [''iOS'', ''Android'', ''Chrome'', ''Firefox''] t2;
          (mobiledevicename, t4) = next_str t3;
          (webinterface, t5) = next_str t4;
          (lastlogin, t6) = next_str t5
      in case validate_or_log fromiso
                [(''type'', PStr ''loginaudit''),
                 (''login_id'', PStr login_id),
                 (''customer_id'', customer_id),
                 (''logintype'', PStr logintype),
                 (''deviceinterface'', PStr deviceinterface),
                 (''mobiledevicename'', PStr mobiledevicename),
                 (''webinterface'', PStr webinterface),
                 (''lastlogin'', PStr lastlogin)] LoginAuditModel of
           Inl e \<Rightarrow> Inl e
         | Inr r \<Rightarrow> Inr (r, t6))"

definition make_delivery ::
  "(string \<Rightarrow> bool) \<Rightarrow> pyval \<Rightarrow> pyval \<Rightarrow> pyval \<Rightarrow> tape \<Rightarrow> error + (payload option \<times> tape)" where
  "make_delivery fromiso order_id deliveryagent_id address_id t =
     (let (delivery_id, t1) = next_str t;
          (deliverystatus, t2) = choice [''assigned'', ''picked_up'', ''delivered''] t1;
          (minutes, t3) = randint 10 40 t2;
          (delivery_date, t4) = next_str t3;
          (created_date, t5) = next_str t4
      in case validate_or_log fromiso
                [(''type'', PStr ''delivery''),
                 (''delivery_id'', PStr delivery_id),
                 (''order_id'', order_id),
                 (''deliveryagent_id'', deliveryagent_id),
                 (''deliverystatus'', PStr deliverystatus),
                 (''estimated_time'', PStr (''00:'' @ str_int minutes @ '':00'')),
                 (''address_id'', address_id),
                 (''delivery_date'', PStr delivery_date),
                 (''created_date'', PStr created_date)] DeliveryModel of
           Inl e \<Rightarrow> Inl e
         | Inr r \<Rightarrow> Inr (r, t5))"

subsection \<open>Orders with their items\<close>

definition make_item ::
  "(string \<Rightarrow> bool) \<Rightarrow> string \<Rightarrow> payload \<Rightarrow> tape \<Rightarrow> error + (payload option \<times> tape)" where
  \<comment> \<open>The body of the loop over the chosen menu items in \<open>make_order_with_items\<close>. A
      menu record without \<open>price\<close> or \<open>menu_id\<close> raises \<open>KeyError\<close>. \<open>price * qty\<close> is
      the exact product: a price of at most 28 significant digits, as every validated price
      is, is not rounded by the context before \<open>quantize\<close>.\<close>
  "make_item fromiso order_id menu_item t =
     (let (qty, t1) = randint 1 3 t
      in case map_of menu_item ''price'' of
           None \<Rightarrow> Inl KeyError
         | Some price_text \<Rightarrow>
             (case Decimal_str price_text of
                Inl e \<Rightarrow> Inl e
              | Inr price \<Rightarrow>
                  (case quantize (price * of_int qty) of
                     Inl e \<Rightarrow> Inl e
                   | Inr subtotal \<Rightarrow>
                       (let (orderitem_id, t2) = next_str t1
                        in case map_of menu_item ''menu_id'' of
                             None \<Rightarrow> Inl KeyError
                           | Some menu_id \<Rightarrow>
                               (case validate_or_log fromiso
                                       [(''type'', PStr ''orderitem''),
                                        (''orderitem_id'', PStr orderitem_id),
                                        (''order_id'', PStr order_id),
                                        (''menu_id'', menu_id),
                                        (''quantity'', PInt qty),
                                        (''price'', PDec price),
                                        (''subtotal'', PDec subtotal)] OrderItemModel of
                                  Inl e \<Rightarrow> Inl e
                                | Inr r \<Rightarrow> Inr (r, t2))))))"

fun make_items ::
  "(string \<Rightarrow> bool) \<Rightarrow> string \<Rightarrow> payload list \<Rightarrow> payload list \<Rightarrow> tape
     \<Rightarrow> error + (payload list \<times> tape)" where
  \<comment> \<open>\<open>for menu_item in chosen: ...\<close>, with \<open>items\<close> as it grows\<close>
  "make_items fromiso order_id [] items t = Inr (items, t)"
| "make_items fromiso order_id (menu_item # chosen) items t =
     (case make_item fromiso order_id menu_item t of
        Inl e \<Rightarrow> Inl e
      | Inr (None, t') \<Rightarrow> make_items fromiso order_id chosen items t'
      | Inr (Some itm_valid, t') \<Rightarrow> make_items fromiso order_id chosen (items @ [itm_valid]) t')"

fun sum_subtotals :: "payload list \<Rightarrow> error + rat" where
  \<comment> \<open>\<open>sum(Decimal(itm["subtotal"]) for itm in items)\<close>\<close>
  "sum_subtotals [] = Inr 0"
| "sum_subtotals (itm # items) =
     (case Decimal_str (item itm ''subtotal'') of
        Inl e \<Rightarrow> Inl e
      | Inr d \<Rightarrow> (case sum_subtotals items of Inl e \<Rightarrow> Inl e | Inr s \<Rightarrow> Inr (d + s)))"

definition order_total :: "payload list \<Rightarrow> tape \<Rightarrow> error + (rat \<times> tape)" where
  \<comment> \<open>\<open>sum(Decimal(itm["subtotal"]) for itm in items) + to_decimal(random.uniform(10, 60))\<close>\<close>
  "order_total items t =
     (case sum_subtotals items of
        Inl e \<Rightarrow> Inl e
      | Inr s \<Rightarrow>
          (let (u, t1) = uniform 10 60 t
           in case to_decimal (PDec u) of
                Inl e \<Rightarrow> Inl e
              | Inr surcharge \<Rightarrow> Inr (s + surcharge, t1)))"

definition make_order ::
  "(string \<Rightarrow> bool) \<Rightarrow> string \<Rightarrow> pyval \<Rightarrow> pyval \<Rightarrow> rat \<Rightarrow> tape
     \<Rightarrow> error + (payload option \<times> tape)" where
  \<comment> \<open>\<open>order_payload\<close> and its validation\<close>
  "make_order fromiso order_id customer_id restaurant_id totalamount t =
     (let (order_date, t1) = next_str t;
          (status, t2) = choice [''placed'', ''preparing'', ''on_the_way'', ''delivered''] t1;
          (paymentmethod, t3) = choice [''card'', ''cash'', ''wallet'', ''upi''] t2;
          (created_date, t4) = next_str t3
      in case validate_or_log fromiso
                [(''type'', PStr ''orders''),
                 (''order_id'', PStr order_id),
                 (''customer_id'', customer_id),
                 (''restaurant_id'', restaurant_id),
                 (''order_date'', PStr order_date),
                 (''totalamount'', PDec totalamount),
                 (''status'', PStr status),
                 (''paymentmethod'', PStr paymentmethod),
                 (''created_date'', PStr created_date)] OrderModel of
           Inl e \<Rightarrow> Inl e
         | Inr r \<Rightarrow> Inr (r, t4))"

definition make_order_with_items ::
  "(string \<Rightarrow> bool) \<Rightarrow> pyval \<Rightarrow> pyval \<Rightarrow> payload list \<Rightarrow> tape
     \<Rightarrow> error + ((payload option \<times> payload list) \<times> tape)" where
  "make_order_with_items fromiso customer_id restaurant_id menus_for_rest t =
     (let (order_id, t1) = next_str t
      in if menus_for_rest = [] then Inr ((None, []), t1)
         else (let (k, t2) = randint 1 (min 3 (int (length menus_for_rest))) t1;
                   (chosen, t3) = sample menus_for_rest (nat k) t2
               in case make_items fromiso order_id chosen [] t3 of
                    Inl e \<Rightarrow> Inl e
                  | Inr (items, t4) \<Rightarrow>
                      if items = [] then Inr ((None, []), t4)
                      else (case order_total items t4 of
                              Inl e \<Rightarrow> Inl e
                            | Inr (totalamount, t5) \<Rightarrow>
                                (case make_order fromiso order_id customer_id restaurant_id
                                        totalamount t5 of
                                   Inl e \<Rightarrow> Inl e
                                 | Inr (order_valid, t6) \<Rightarrow> Inr ((order_valid, items), t6)))))"




section \<open>The batch builder\<close>

text \<open>
  \<open>build_batch\<close> is modelled stage by stage. A pool or a row list that a loop appends to is
  an argument of the loop's function; \<open>if c:\<close> on a record that \<open>validate_or_log\<close>
  returned is the test for \<open>Some\<close>, since a validated record is never empty.
\<close>

fun customer_pool ::
  "(string \<Rightarrow> bool) \<Rightarrow> int \<Rightarrow> nat \<Rightarrow> payload list \<Rightarrow> payload list \<Rightarrow> registry \<Rightarrow> tape
     \<Rightarrow> error + (payload list \<times> payload list \<times> registry \<times> tape)" where
  \<comment> \<open>\<open>while len(customers) < num_customers and attempts < num_customers * 10\<close>; the third
      argument is the number of attempts left\<close>
  "customer_pool fromiso num_customers 0 customers rows reg t = Inr (customers, rows, reg, t)"
| "customer_pool fromiso num_customers (Suc left) customers rows reg t =
     (if int (length customers) < num_customers then
        (case make_customer_unique fromiso PNone reg t of
           Inl e \<Rightarrow> Inl e
         | Inr (None, reg', t') \<Rightarrow>
             customer_pool fromiso num_customers left customers rows reg' t'
         | Inr (Some c, reg', t') \<Rightarrow>
             customer_pool fromiso num_customers left (customers @ [c]) (rows @ [c]) reg' t')
      else Inr (customers, rows, reg, t))"

fun address_loop ::
  "(string \<Rightarrow> bool) \<Rightarrow> pyval \<Rightarrow> nat \<Rightarrow> payload list \<Rightarrow> payload list \<Rightarrow> tape
     \<Rightarrow> error + (payload list \<times> payload list \<times> tape)" where
  \<comment> \<open>\<open>for _ in range(random.randint(1, 2)): a = make_address(c["customer_id"]) ...\<close>\<close>
  "address_loop fromiso customer_id 0 addresses rows t = Inr (addresses, rows, t)"
| "address_loop fromiso customer_id (Suc n) addresses rows t =
     (case make_address fromiso customer_id t of
        Inl e \<Rightarrow> Inl e
      | Inr (None, t') \<Rightarrow> address_loop fromiso customer_id n addresses rows t'
      | Inr (Some a, t') \<Rightarrow>
          address_loop fromiso customer_id n (addresses @ [a]) (rows @ [a]) t')"

definition login_event ::
  "(string \<Rightarrow> bool) \<Rightarrow> pyval \<Rightarrow> payload list \<Rightarrow> tape \<Rightarrow> error + (payload list \<times> tape)" where
  \<comment> \<open>\<open>if random.random() < 0.4: la = make_loginaudit(...); if la: rows.append(la)\<close>\<close>
  "login_event fromiso customer_id rows t =
     (let (x, t1) = random_random t
      in if x < 4 / 10 then
           (case make_loginaudit fromiso customer_id t1 of
              Inl e \<Rightarrow> Inl e
            | Inr (None, t2) \<Rightarrow> Inr (rows, t2)
            | Inr (Some la, t2) \<Rightarrow> Inr (rows @ [la], t2))
         else Inr (rows, t1))"

fun address_stage ::
  "(string \<Rightarrow> bool) \<Rightarrow> payload list \<Rightarrow> payload list \<Rightarrow> payload list \<Rightarrow> tape
     \<Rightarrow> error + (payload list \<times> payload list \<times> tape)" where
  \<comment> \<open>\<open>for c in customers: ...\<close>\<close>
  "address_stage fromiso [] addresses rows t = Inr (addresses, rows, t)"
| "address_stage fromiso (c # customers) addresses rows t =
     (let (n, t1) = randint 1 2 t
      in case address_loop fromiso (item c ''customer_id'') (nat n) addresses rows t1 of
           Inl e \<Rightarrow> Inl e
         | Inr (addresses', rows', t2) \<Rightarrow>
             (case login_event fromiso (item c ''customer_id'') rows' t2 of
                Inl e \<Rightarrow> Inl e
              | Inr (rows'', t3) \<Rightarrow> address_stage fromiso customers addresses' rows'' t3))"

fun pool ::
  "nat \<Rightarrow> (registry \<Rightarrow> tape \<Rightarrow> made) \<Rightarrow> payload list \<Rightarrow> payload list \<Rightarrow> registry \<Rightarrow> tape
     \<Rightarrow> error + (payload list \<times> payload list \<times> registry \<times> tape)" where
  \<comment> \<open>\<open>for _ in range(n): x = make(); if x: xs.append(x); rows.append(x)\<close>: the loops that
      fill \<open>restaurants\<close>, \<open>agents\<close> and a restaurant's \<open>mlist\<close>\<close>
  "pool 0 factory xs rows reg t = Inr (xs, rows, reg, t)"
| "pool (Suc n) factory xs rows reg t =
     (case factory reg t of
        Inl e \<Rightarrow> Inl e
      | Inr (None, reg', t') \<Rightarrow> pool n factory xs rows reg' t'
      | Inr (Some x, reg', t') \<Rightarrow> pool n factory (xs @ [x]) (rows @ [x]) reg' t')"

definition fallback_menu :: "pyval \<Rightarrow> tape \<Rightarrow> payload \<times> tape" where
  \<comment> \<open>the hard-coded fallback record; its price is the text \<open>"100.00"\<close>\<close>
  "fallback_menu restaurant_id t =
     (let (menu_id, t1) = next_str t; (created_date, t2) = next_str t1
      in ([(''type'', PStr ''menu''),
           (''menu_id'', PStr menu_id),
           (''restaurant_id'', restaurant_id),
           (''itemname'', PStr ''Basic Item''),
           (''description'', PStr ''auto-created''),
           (''price'', PDec 100),
           (''activeflag'', PStr ''Y''),
           (''created_date'', PStr created_date)], t2))"

definition restaurant_menus ::
  "(string \<Rightarrow> bool) \<Rightarrow> payload \<Rightarrow> payload list \<Rightarrow> registry \<Rightarrow> tape
     \<Rightarrow> error + (payload list \<times> payload list \<times> registry \<times> tape)" where
  \<comment> \<open>the body of \<open>for r in restaurants\<close>: the restaurant's \<open>mlist\<close>, and the rows and the
      registry after it\<close>
  "restaurant_menus fromiso r rows reg t =
     (let (n, t1) = randint 3 6 t
      in case pool (nat n) (make_menu_unique fromiso (item r ''restaurant_id'')) [] rows reg t1 of
           Inl e \<Rightarrow> Inl e
         | Inr (mlist, rows', reg', t2) \<Rightarrow>
             if mlist = [] then
               (let (fallback, t3) = fallback_menu (item r ''restaurant_id'') t2
                in Inr (mlist @ [fallback], rows' @ [fallback],
                        reg'\<lparr>existing_menu_keys :=
                               insert (item fallback ''restaurant_id'',
                                       lower (strip (chars (item fallback ''itemname''))))
                                 (existing_menu_keys reg')\<rparr>,
                        t3))
             else Inr (mlist, rows', reg', t2))"

fun menu_stage ::
  "(string \<Rightarrow> bool) \<Rightarrow> payload list \<Rightarrow> (pyval \<rightharpoonup> payload list) \<Rightarrow> payload list \<Rightarrow> registry
     \<Rightarrow> tape \<Rightarrow> error + ((pyval \<rightharpoonup> payload list) \<times> payload list \<times> registry \<times> tape)" where
  \<comment> \<open>\<open>for r in restaurants: ...; menus[r["restaurant_id"]] = mlist\<close>\<close>
  "menu_stage fromiso [] menus rows reg t = Inr (menus, rows, reg, t)"
| "menu_stage fromiso (r # restaurants) menus rows reg t =
     (case restaurant_menus fromiso r rows reg t of
        Inl e \<Rightarrow> Inl e
      | Inr (mlist, rows', reg', t') \<Rightarrow>
          menu_stage fromiso restaurants (menus(item r ''restaurant_id'' \<mapsto> mlist)) rows' reg' t')"

definition pick_address :: "payload \<Rightarrow> payload list \<Rightarrow> tape \<Rightarrow> pyval \<times> tape" where
  \<comment> \<open>\<open>address_id\<close>: of one of the customer's addresses, else of any address, else
      \<open>None\<close>\<close>
  "pick_address cust addresses t =
     (let cust_addresses =
            filter (\<lambda>a. item a ''customer_id'' = item cust ''customer_id'') addresses
      in if cust_addresses \<noteq> [] then
           (let (a, t1) = choice cust_addresses t in (item a ''address_id'', t1))
         else if addresses \<noteq> [] then
           (let (a, t1) = choice addresses t in (item a ''address_id'', t1))
         else (PNone, t))"

definition delivery_step ::
  "(string \<Rightarrow> bool) \<Rightarrow> payload \<Rightarrow> payload \<Rightarrow> payload list \<Rightarrow> payload list \<Rightarrow> payload list
     \<Rightarrow> tape \<Rightarrow> error + (payload list \<times> tape)" where
  \<comment> \<open>\<open>if random.random() < 0.6 and agents: ...\<close>, the optional delivery of an order\<close>
  "delivery_step fromiso cust order_valid addresses agents rows t =
     (let (x, t1) = random_random t
      in if x < 6 / 10 \<and> agents \<noteq> [] then
           (let (address_id, t2) = pick_address cust addresses t1;
                (agent, t3) = choice agents t2
            in if truthy address_id then
                 (case make_delivery fromiso (item order_valid ''order_id'')
                         (item agent ''deliveryagent_id'') address_id t3 of
                    Inl e \<Rightarrow> Inl e
                  | Inr (None, t4) \<Rightarrow> Inr (rows, t4)
                  | Inr (Some delivery_rec, t4) \<Rightarrow> Inr (rows @ [delivery_rec], t4))
               else Inr (rows, t3))
         else Inr (rows, t1))"

definition order_step ::
  "(string \<Rightarrow> bool) \<Rightarrow> payload list \<Rightarrow> payload list \<Rightarrow> (pyval \<rightharpoonup> payload list) \<Rightarrow> payload list
     \<Rightarrow> payload list \<Rightarrow> payload list \<Rightarrow> tape \<Rightarrow> error + (payload list \<times> tape)" where
  \<comment> \<open>the body of the order loop\<close>
  "order_step fromiso customers restaurants menus addresses agents rows t =
     (case random_choice customers t of
        Inl e \<Rightarrow> Inl e
      | Inr (cust, t1) \<Rightarrow>
          (case random_choice restaurants t1 of
             Inl e \<Rightarrow> Inl e
           | Inr (rest, t2) \<Rightarrow>
               (case make_order_with_items fromiso (item cust ''customer_id'')
                       (item rest ''restaurant_id'')
                       (case menus (item rest ''restaurant_id'') of None \<Rightarrow> [] | Some m \<Rightarrow> m)
                       t2 of
                  Inl e \<Rightarrow> Inl e
                | Inr ((None, items), t3) \<Rightarrow> Inr (rows, t3)
                | Inr ((Some order_valid, items), t3) \<Rightarrow>
                    delivery_step fromiso cust order_valid addresses agents
                      (rows @ [order_valid] @ items) t3)))"

fun order_loop ::
  "(string \<Rightarrow> bool) \<Rightarrow> int \<Rightarrow> nat \<Rightarrow> payload list \<Rightarrow> payload list \<Rightarrow> (pyval \<rightharpoonup> payload list)
     \<Rightarrow> payload list \<Rightarrow> payload list \<Rightarrow> payload list \<Rightarrow> tape
     \<Rightarrow> error + (payload list \<times> tape)" where
  \<comment> \<open>\<open>while len(rows) < batch_size and attempts < batch_size * 10\<close>; the third argument
      is the number of attempts left\<close>
  "order_loop fromiso batch_size 0 customers restaurants menus addresses agents rows t =
     Inr (rows, t)"
| "order_loop fromiso batch_size (Suc left) customers restaurants menus addresses agents rows t =
     (if int (length rows) < batch_size then
        (case order_step fromiso customers restaurants menus addresses agents rows t of
           Inl e \<Rightarrow> Inl e
         | Inr (rows', t') \<Rightarrow>
             order_loop fromiso batch_size left customers restaurants menus addresses agents
               rows' t')
      else Inr (rows, t))"

definition slice_to :: "'a list \<Rightarrow> int \<Rightarrow> 'a list" where
  \<comment> \<open>\<open>xs[:n]\<close>; a negative \<open>n\<close> counts from the end\<close>
  "slice_to xs n = (if 0 \<le> n then take (nat n) xs else take (nat (int (length xs) + n)) xs)"

definition finish :: "payload list \<Rightarrow> int \<Rightarrow> payload list" where
  \<comment> \<open>the end of \<open>build_batch\<close>; no row is \<open>None\<close>, so the final filter keeps all\<close>
  "finish rows batch_size =
     (if int (length rows) > batch_size then slice_to rows batch_size else rows)"

definition assemble ::
  "(string \<Rightarrow> bool) \<Rightarrow> int \<Rightarrow> registry \<Rightarrow> tape \<Rightarrow> error + (payload list \<times> registry \<times> tape)" where
  \<comment> \<open>\<open>build_batch\<close> up to the end of the order loop: \<open>rows\<close> as it stands before the
      final slice\<close>
  "assemble fromiso batch_size reg t =
     (let num_customers = max 10 (batch_size div 20);
          num_restaurants = max 5 (batch_size div 50);
          num_agents = max 5 (batch_size div 50)
      in case customer_pool fromiso num_customers (nat (num_customers * 10)) [] [] reg t of
           Inl e \<Rightarrow> Inl e
         | Inr (customers, rows1, reg1, t1) \<Rightarrow>
         (case address_stage fromiso customers [] rows1 t1 of
           Inl e \<Rightarrow> Inl e
         | Inr (addresses, rows2, t2) \<Rightarrow>
         (case pool (nat num_restaurants) (make_restaurant_unique fromiso) [] rows2 reg1 t2 of
           Inl e \<Rightarrow> Inl e
         | Inr (restaurants, rows3, reg2, t3) \<Rightarrow>
         (case menu_stage fromiso restaurants Map.empty rows3 reg2 t3 of
           Inl e \<Rightarrow> Inl e
         | Inr (menus, rows4, reg3, t4) \<Rightarrow>
         (case pool (nat num_agents) (make_deliveryagent_unique fromiso) [] rows4 reg3 t4 of
           Inl e \<Rightarrow> Inl e
         | Inr (agents, rows5, reg4, t5) \<Rightarrow>
         (case order_loop fromiso batch_size (nat (batch_size * 10)) customers restaurants
                 menus addresses agents rows5 t5 of
           Inl e \<Rightarrow> Inl e
         | Inr (rows6, t6) \<Rightarrow> Inr (rows6, reg4, t6)))))))"

definition build_batch ::
  "(string \<Rightarrow> bool) \<Rightarrow> int \<Rightarrow> registry \<Rightarrow> tape \<Rightarrow> error + (payload list \<times> registry \<times> tape)" where
  "build_batch fromiso batch_size reg t =
     (case assemble fromiso batch_size reg t of
        Inl e \<Rightarrow> Inl e
      | Inr (rows, reg', t') \<Rightarrow> Inr (finish rows batch_size, reg', t'))"

section \<open>The factories over a process lifetime\<close>

text \<open>
  The registry lives as long as the process. A lifetime is any sequence of calls of the
  four uniqueness-constrained factories, mixed with the one other write to the registry,
  the key of a fallback menu item that \<open>build_batch\<close> adds; \<open>lifetime\<close> runs such a
  sequence and collects the records the factories returned.
\<close>

datatype call =
    NewCustomer pyval      \<comment> \<open>\<open>make_customer_unique(customer_id)\<close>\<close>
  | NewRestaurant          \<comment> \<open>\<open>make_restaurant_unique()\<close>\<close>
  | NewMenu pyval          \<comment> \<open>\<open>make_menu_unique(restaurant_id)\<close>\<close>
  | NewAgent               \<comment> \<open>\<open>make_deliveryagent_unique()\<close>\<close>
  | RegisterFallback pyval \<comment> \<open>\<open>build_batch\<close>'s fallback for a restaurant\<close>

fun run_call :: "(string \<Rightarrow> bool) \<Rightarrow> call \<Rightarrow> registry \<Rightarrow> tape \<Rightarrow> made" where
  "run_call fromiso (NewCustomer customer_id) reg t = make_customer_unique fromiso customer_id reg t"
| "run_call fromiso NewRestaurant reg t = make_restaurant_unique fromiso reg t"
| "run_call fromiso (NewMenu restaurant_id) reg t = make_menu_unique fromiso restaurant_id reg t"
| "run_call fromiso NewAgent reg t = make_deliveryagent_unique fromiso reg t"
| "run_call fromiso (RegisterFallback restaurant_id) reg t =
     (let (fallback, t') = fallback_menu restaurant_id t
      in Inr (None,
              reg\<lparr>existing_menu_keys :=
                    insert (item fallback ''restaurant_id'',
                            lower (strip (chars (item fallback ''itemname''))))
                      (existing_menu_keys reg)\<rparr>,
              t'))"

fun lifetime ::
  "(string \<Rightarrow> bool) \<Rightarrow> call list \<Rightarrow> payload list \<Rightarrow> registry \<Rightarrow> tape
     \<Rightarrow> error + (payload list \<times> registry \<times> tape)" where
  "lifetime fromiso [] returned reg t = Inr (returned, reg, t)"
| "lifetime fromiso (c # cs) returned reg t =
     (case run_call fromiso c reg t of
        Inl e \<Rightarrow> Inl e
      | Inr (None, reg', t') \<Rightarrow> lifetime fromiso cs returned reg' t'
      | Inr (Some valid, reg', t') \<Rightarrow> lifetime fromiso cs (returned @ [valid]) reg' t')"

definition of_type :: "string \<Rightarrow> payload list \<Rightarrow> payload list" where
  \<comment> \<open>the records with the given \<open>type\<close> tag\<close>
  "of_type ty rows = filter (\<lambda>r. item r ''type'' = PStr ty) rows"

definition customer_name_dob_key :: "payload \<Rightarrow> string \<times> pyval" where
  \<comment> \<open>\<open>(valid["name"].strip().lower(), valid.get("dob"))\<close>\<close>
  "customer_name_dob_key c = (lower (strip (chars (item c ''name''))), item c ''dob'')"

definition restaurant_key :: "payload \<Rightarrow> string \<times> pyval" where
  \<comment> \<open>\<open>(valid["name"].strip().lower(), valid["location_id"])\<close>\<close>
  "restaurant_key r = (lower (strip (chars (item r ''name''))), item r ''location_id'')"

definition menu_key :: "payload \<Rightarrow> pyval \<times> string" where
  \<comment> \<open>\<open>(valid["restaurant_id"], valid["itemname"].strip().lower())\<close>\<close>
  "menu_key m = (item m ''restaurant_id'', lower (strip (chars (item m ''itemname''))))"

definition keyed :: "string \<Rightarrow> (payload \<Rightarrow> 'k) \<Rightarrow> 'k set \<Rightarrow> payload list \<Rightarrow> bool" where
  \<comment> \<open>the records of one type have their keys in the set, and no key twice\<close>
  "keyed ty key S rows =
     (key ` set (of_type ty rows) \<subseteq> S \<and> distinct (map key (of_type ty rows)))"

definition registered :: "registry \<Rightarrow> payload list \<Rightarrow> bool" where
  \<comment> \<open>the registry holds the keys of the returned records, with no key twice\<close>
  "registered reg rows =
     (keyed ''customer'' (\<lambda>c. item c ''mobile'') (existing_customer_mobiles reg) rows
      \<and> keyed ''customer'' (\<lambda>c. lower (chars (item c ''email''))) (existing_customer_emails reg) rows
      \<and> keyed ''customer'' customer_name_dob_key (existing_customer_name_dob reg) rows
      \<and> keyed ''restaurant'' restaurant_key (existing_restaurant_keys reg) rows
      \<and> keyed ''menu'' menu_key (existing_menu_keys reg) rows
      \<and> keyed ''deliveryagent'' (\<lambda>a. item a ''phone'') (existing_agent_phones reg) rows)"

section \<open>Candidates that differ in one field\<close>

definition with_email :: "string \<Rightarrow> payload \<Rightarrow> payload" where
  \<comment> \<open>the candidate with the value of its \<open>email\<close> key replaced by the given text\<close>
  "with_email e p = map (\<lambda>(k, v). if k = ''email'' then (k, PStr e) else (k, v)) p"

section \<open>Sample inputs\<close>

definition fromisoformat_known :: "string \<Rightarrow> bool" where
  \<comment> \<open>\<open>datetime.fromisoformat\<close> on the two timestamps of the sample inputs, which it
      reads; it stands in for the parser where a sample run needs one.\<close>
  "fromisoformat_known s = (s = ''2024-01-01T00:00:00+00:00'' \<or> s = ''1990-05-17'')"

definition superscript_mobile :: string where
  \<comment> \<open>the text \<open>6\<close> followed by nine times U+00B2 (superscript two)\<close>
  "superscript_mobile =
     [CHR ''6'', CHR 0xB2, CHR 0xB2, CHR 0xB2, CHR 0xB2, CHR 0xB2, CHR 0xB2, CHR 0xB2, CHR 0xB2,
      CHR 0xB2]"

definition orderitem_example :: "rat \<Rightarrow> payload" where
  \<comment> \<open>an order item of quantity 1 at price 10.00 with the given subtotal\<close>
  "orderitem_example subtotal =
     [(''type'', PStr ''orderitem''),
      (''orderitem_id'', PStr ''i1''),
      (''order_id'', PStr ''o1''),
      (''menu_id'', PStr ''m1''),
      (''quantity'', PInt 1),
      (''price'', PDec 10),
      (''subtotal'', PDec subtotal)]"

definition loginaudit_example :: "pyval \<Rightarrow> payload" where
  \<comment> \<open>a login audit with the given \<open>lastlogin\<close>\<close>
  "loginaudit_example lastlogin =
     [(''type'', PStr ''loginaudit''),
      (''login_id'', PStr ''l1''),
      (''customer_id'', PStr ''c1''),
      (''logintype'', PStr ''web''),
      (''deviceinterface'', PStr ''iOS''),
      (''mobiledevicename'', PStr ''Mozilla/5.0''),
      (''webinterface'', PStr ''Mozilla/5.0''),
      (''lastlogin'', lastlogin)]"

definition customer_example :: "string \<Rightarrow> payload" where
  \<comment> \<open>a customer with the given email\<close>
  "customer_example email =
     [(''type'', PStr ''customer''),
      (''customer_id'', PStr ''c1''),
      (''name'', PStr ''Asha Rao''),
      (''mobile'', PStr ''9876543210''),
      (''email'', PStr email),
      (''loginbyusing'', PStr ''OTP''),
      (''gender'', PStr ''Female''),
      (''dob'', PStr ''1990-05-17''),
      (''preferences'', PDict [(''vegan'', PBool True), (''spicy'', PStr ''low'')]),
      (''created_date'', PStr ''2024-01-01T00:00:00+00:00'')]"

definition cust_tape :: tape where
  \<comment> \<open>draws for one customer candidate: the id, the name, then numbers\<close>
  "cust_tape = [DStr ''c1'', DStr ''Asha Rao'', DInt 1, DInt 41, DInt 3, DInt 1]"

definition agents_tape :: tape where
  \<comment> \<open>draws for two delivery agents, with the phones 9876543210 and 6123456789\<close>
  "agents_tape =
     [DInt 3, DInt 8, DInt 7, DInt 6, DInt 5, DInt 4, DInt 3, DInt 2, DInt 1, DInt 0,
      DStr ''g1'', DStr ''Ravi Kumar'', DInt 0, DStr ''loc1'', DInt 0, DInt 500000,
      DStr ''2024-01-01T00:00:00+00:00'',
      DInt 0, DInt 1, DInt 2, DInt 3, DInt 4, DInt 5, DInt 6, DInt 7, DInt 8, DInt 9,
      DStr ''g2'', DStr ''Meera Nair'', DInt 1, DStr ''loc2'', DInt 1, DInt 250000,
      DStr ''2024-01-01T00:00:00+00:00'']"




section \<open>Properties of the validation layer\<close>

lemmas run_defs = validate_or_log_def model_validate_def run_field_def caught_def plain_def
  with_before_def with_after_def type_tag_def model_after_def diagnostic_id_def

subsection \<open>Mobile and phone numbers\<close>

lemma validate_mobile_ascii:
  "list_all ascii_digit v \<Longrightarrow> (validate_mobile v = Inr v) = matches_mobile_regex v"
  unfolding validate_mobile_def matches_mobile_regex_def isdigit_def isdigit_char_def
  by (auto simp: list_all_iff)

text \<open>
  C5. The claim: \<open>validate_mobile\<close> (the Customer's \<open>mobile\<close> and the DeliveryAgent's
  \<open>phone\<close>) accepts a text exactly when it matches \<open>^[6-9]\d{9}$\<close>. On texts of ASCII
  digits the two agree (\<open>validate_mobile_ascii\<close>). The code tests \<open>str.isdigit\<close>, which
  also holds of the superscript digits: the ten-character text \<open>6\<close> followed by nine
  times U+00B2 is returned as valid, and it does not match the expression.
\<close>

theorem validate_mobile_accepts_superscripts:
  "validate_mobile superscript_mobile = Inr superscript_mobile
   \<and> \<not> matches_mobile_regex superscript_mobile"
  by (simp add: superscript_mobile_def validate_mobile_def matches_mobile_regex_def isdigit_def
      isdigit_char_def ascii_digit_def)

theorem validate_mobile_accepts_superscripts_witness:
  "validate_mobile superscript_mobile = Inr superscript_mobile"
  using validate_mobile_accepts_superscripts by simp

subsection \<open>The subtotal of an order item\<close>

lemma check_subtotal_iff:
  "(check_subtotal price quantity subtotal = Inr ()) =
   (\<exists>expected. quantize (price * of_int quantity) = Inr expected \<and> expected - 1 / 100 \<le> subtotal)"
  unfolding check_subtotal_def by (auto split: sum.splits)

lemma quantize_10: "quantize 10 = Inr 10"
  by code_simp

lemma quantize_20: "quantize 20 = Inr 20"
  by code_simp

text \<open>
  C1. The claim: an order item is accepted exactly when its subtotal is
  \<open>expected = round_half_up(price * quantity, 2)\<close> or lies in
  \<open>[expected - 0.01, expected]\<close>; a subtotal above \<open>expected\<close> is rejected. The check
  raises only below \<open>expected - 0.01\<close> (\<open>check_subtotal_iff\<close>), so an item of quantity 1
  at price 10.00 with subtotal 20.00 passes \<open>check_subtotal\<close> and is returned by
  \<open>validate_or_log\<close> as valid.
\<close>

theorem check_subtotal_accepts_above:
  "check_subtotal 10 1 20 = Inr () \<and>
   validate_or_log fromiso (orderitem_example 20) OrderItemModel = Inr (Some (orderitem_example 20))"
  by (simp add: run_defs orderitem_example_def decimal_positive_def quantity_positive_def
      py_int_def to_decimal_def Decimal_str_def check_subtotal_def quantize_10 quantize_20)

theorem check_subtotal_accepts_above_witness:
  "validate_or_log fromisoformat_known (orderitem_example 20) OrderItemModel
     = Inr (Some (orderitem_example 20))"
  using check_subtotal_accepts_above [of fromisoformat_known] by simp

subsection \<open>What \<open>validate_or_log\<close> can end with\<close>

lemma validate_or_log_lastlogin_none:
  "validate_or_log fromiso (loginaudit_example PNone) LoginAuditModel = Inr None"
  by (simp add: run_defs loginaudit_example_def validate_iso_def)

lemma validate_or_log_quantity_none:
  "validate_or_log fromiso
     [(''type'', PStr ''orderitem''), (''orderitem_id'', PStr ''i1''), (''order_id'', PStr ''o1''),
      (''menu_id'', PStr ''m1''), (''quantity'', PNone), (''price'', PDec 10),
      (''subtotal'', PDec 10)] OrderItemModel = Inl TypeError"
  by (simp add: run_defs quantity_positive_def py_int_def)

text \<open>
  C3. The claim: for every raw candidate and every model, \<open>validate_or_log\<close> returns the
  validated record or prints the failure and returns \<open>None\<close>, and ends with no other
  exception. A login audit whose \<open>lastlogin\<close> is \<open>None\<close> is indeed printed and dropped
  (\<open>validate_or_log_lastlogin_none\<close>). But the handler reads the second key of the
  candidate before it prints: on the candidate \<open>{"type": "loginaudit"}\<close>, which fails
  validation for its missing fields, the call ends with \<open>IndexError\<close>.
\<close>

theorem validate_or_log_short_payload:
  "validate_or_log fromiso [(''type'', PStr ''loginaudit'')] LoginAuditModel = Inl IndexError"
  by (simp add: run_defs)

theorem validate_or_log_short_payload_witness:
  "validate_or_log fromisoformat_known [(''type'', PStr ''loginaudit'')] LoginAuditModel
     = Inl IndexError"
  using validate_or_log_short_payload [of fromisoformat_known] by simp

subsection \<open>The email of a customer\<close>

lemma ascii_digit_digit_char: "(n::nat) < 10 \<Longrightarrow> ascii_digit (char_of (48 + n))"
  unfolding ascii_digit_def by simp

lemma digits_ascii: "list_all ascii_digit (digits n)"
proof (induction n rule: digits.induct)
  case (1 n)
  show ?case
  proof (cases "n < 10")
    case True
    then show ?thesis by (simp add: digits.simps[of n] ascii_digit_digit_char)
  next
    case False
    then have "list_all ascii_digit (digits (n div 10))" using 1 by simp
    moreover have "ascii_digit (char_of (48 + n mod 10))" by (rule ascii_digit_digit_char) simp
    ultimately show ?thesis using False by (simp add: digits.simps[of n])
  qed
qed

lemma at_notin_digits: "CHR ''@'' \<notin> set (digits n)"
  using digits_ascii[of n] by (auto simp: list_all_iff ascii_digit_def)

lemma at_notin_str_int: "CHR ''@'' \<notin> set (str_int k)"
  by (simp add: str_int_def at_notin_digits)

lemma set_strip_subset: "set (strip s) \<subseteq> set s"
proof -
  have "set (strip s) \<subseteq> set (dropWhile isspace_char s)"
    unfolding strip_def using set_dropWhileD[of _ isspace_char "rev (dropWhile isspace_char s)"] by auto
  also have "\<dots> \<subseteq> set s" using set_dropWhileD[of _ isspace_char s] by auto
  finally show ?thesis .
qed

lemma of_char_lower_char:
  "(of_char (lower_char c) :: nat) =
     (if (65 \<le> (of_char c :: nat) \<and> (of_char c :: nat) \<le> 90)
         \<or> (192 \<le> (of_char c :: nat) \<and> (of_char c :: nat) \<le> 222 \<and> (of_char c :: nat) \<noteq> 215)
      then of_char c + 32 else of_char c)"
  unfolding lower_char_def Let_def by auto

lemma lower_char_at: "lower_char c = CHR ''@'' \<Longrightarrow> c = CHR ''@''"
proof -
  assume a: "lower_char c = CHR ''@''"
  have "(of_char (lower_char c) :: nat) = 64" by (simp add: a)
  then have "(of_char c :: nat) = 64" by (simp add: of_char_lower_char split: if_splits)
  then have "(of_char c :: nat) = of_char (CHR ''@'')" by simp
  then show ?thesis by (simp only: of_char_eq_iff)
qed

lemma at_notin_lower: "CHR ''@'' \<notin> set s \<Longrightarrow> CHR ''@'' \<notin> set (lower s)"
  unfolding lower_def using lower_char_at by force

lemma choice_in: "xs \<noteq> [] \<Longrightarrow> fst (choice xs t) \<in> set xs"
proof -
  assume "xs \<noteq> []"
  then have "nat (fst (next_int t) mod int (length xs)) < length xs"
    by (simp add: nat_less_iff)
  then show ?thesis
    unfolding choice_def by (simp add: split_def Let_def)
qed



lemma candidate_name_email:
  "\<exists>name k domain. domain \<in> set [''gmail'', ''outlook'', ''hotmail'', ''icloud'']
     \<and> item (fst (make_customer_candidate cid t)) ''name'' = PStr name
     \<and> item (fst (make_customer_candidate cid t)) ''email''
         = PStr (strip (lower name) @ str_int k @ ''@'' @ domain @ ''.com'')"
proof -
  define t1 where "t1 = (if truthy cid then t else snd (next_str t))"
  define t2 where "t2 = snd (next_str t1)"
  define dom where "dom = fst (choice [''gmail'', ''outlook'', ''hotmail'', ''icloud''] t2)"
  define t3 where "t3 = snd (choice [''gmail'', ''outlook'', ''hotmail'', ''icloud''] t2)"
  have d: "dom \<in> set [''gmail'', ''outlook'', ''hotmail'', ''icloud'']"
    unfolding dom_def by (rule choice_in) simp
  have n: "item (fst (make_customer_candidate cid t)) ''name'' = PStr (fst (next_str t1))"
    unfolding make_customer_candidate_def t1_def
    by (simp add: split_def Let_def item_def)
  have e: "item (fst (make_customer_candidate cid t)) ''email''
         = PStr (strip (lower (fst (next_str t1))) @ str_int (fst (randint 1 9999 t3)) @ ''@'' @ dom @ ''.com'')"
    unfolding make_customer_candidate_def t1_def t2_def t3_def dom_def
    by (simp add: split_def Let_def item_def)
  from d n e show ?thesis by blast
qed

text \<open>
  C4, as the claim states it: every Customer candidate that validation accepts has exactly
  one \<open>@\<close> in its email. \<open>CustomerModel\<close> declares \<open>email: str\<close> with no validator: the
  candidate below, whose email is \<open>no-at-sign\<close>, is accepted.
\<close>

theorem customer_email_unchecked:
  "validate_or_log fromisoformat_known (customer_example ''no-at-sign'') CustomerModel
     = Inr (Some (customer_example ''no-at-sign''))
   \<and> count_list (chars (item (customer_example ''no-at-sign'') ''email'')) (CHR ''@'') \<noteq> 1"
  by (simp add: run_defs customer_example_def fromisoformat_known_def validate_iso_or_none_def
      validate_iso_def replace_Z_def mobile_field_def validate_mobile_def isdigit_def
      isdigit_char_def ascii_digit_def item_def chars_def)

lemma candidate_email_count:
  assumes "CHR ''@'' \<notin> set (chars (item (fst (make_customer_candidate cid t)) ''name''))"
  shows "count_list (chars (item (fst (make_customer_candidate cid t)) ''email'')) (CHR ''@'') = 1"
proof -
  obtain name k domain where
    d: "domain \<in> set [''gmail'', ''outlook'', ''hotmail'', ''icloud'']" and
    n: "item (fst (make_customer_candidate cid t)) ''name'' = PStr name" and
    e: "item (fst (make_customer_candidate cid t)) ''email''
          = PStr (strip (lower name) @ str_int k @ ''@'' @ domain @ ''.com'')"
    using candidate_name_email by blast
  from assms n have "CHR ''@'' \<notin> set name" by (simp add: chars_def)
  then have "CHR ''@'' \<notin> set (strip (lower name))"
    using at_notin_lower set_strip_subset by blast
  then have 1: "count_list (strip (lower name)) (CHR ''@'') = 0" by (simp add: count_list_0_iff)
  have 2: "count_list (str_int k) (CHR ''@'') = 0" by (simp add: count_list_0_iff at_notin_str_int)
  have 3: "count_list domain (CHR ''@'') = 0" using d by auto
  show ?thesis by (simp add: e chars_def 1 2 3)
qed

lemma map_of_with_email:
  "map_of (with_email e p) k =
     (if k = ''email'' then map_option (\<lambda>v. PStr e) (map_of p k) else map_of p k)"
  unfolding with_email_def by (induction p) auto

lemma validate_fields_Some_iff:
  "(\<exists>d. validate_fields fs p = Inr (Some d)) = (\<forall>f \<in> set fs. \<exists>v. run_field f p = Inr (Some v))"
  by (induction fs) (auto split: sum.splits option.splits)

lemma accepted_iff_fields:
  "cls \<noteq> OrderItemModel \<Longrightarrow>
   (\<exists>d. validate_or_log fromiso p cls = Inr (Some d))
     = (\<exists>d. validate_fields (model_fields fromiso cls) p = Inr (Some d))"
  unfolding validate_or_log_def model_validate_def model_after_def
  by (auto split: sum.splits option.splits)

lemma customer_fields_with_email:
  assumes "map_of p ''email'' = Some (PStr e)"
  shows "\<forall>f \<in> set (model_fields fromiso CustomerModel).
           (\<exists>v. run_field f (with_email e' p) = Inr (Some v)) = (\<exists>v. run_field f p = Inr (Some v))"
  by (simp add: run_field_def plain_def with_before_def with_after_def type_tag_def
      map_of_with_email assms caught_def)

text \<open>
  C4, amended: the validation layer accepts a Customer candidate whatever the text of its
  email (a candidate with a text for email is accepted exactly when the same candidate
  with any other text for email is); the email that \<open>make_customer_candidate\<close> builds
  has exactly one \<open>@\<close> whenever the generated name has none.
\<close>

theorem candidate_email_one_at:
  "(map_of p ''email'' = Some (PStr e) \<longrightarrow>
      (\<exists>d. validate_or_log fromiso (with_email e' p) CustomerModel = Inr (Some d))
        = (\<exists>d. validate_or_log fromiso p CustomerModel = Inr (Some d)))
   \<and> (CHR ''@'' \<notin> set (chars (item (fst (make_customer_candidate cid t)) ''name'')) \<longrightarrow>
      count_list (chars (item (fst (make_customer_candidate cid t)) ''email'')) (CHR ''@'') = 1)"
proof (intro conjI impI)
  assume m: "map_of p ''email'' = Some (PStr e)"
  have "(\<exists>d. validate_fields (model_fields fromiso CustomerModel) (with_email e' p) = Inr (Some d))
        = (\<exists>d. validate_fields (model_fields fromiso CustomerModel) p = Inr (Some d))"
    unfolding validate_fields_Some_iff
    using customer_fields_with_email[OF m, of fromiso e'] by blast
  then show "(\<exists>d. validate_or_log fromiso (with_email e' p) CustomerModel = Inr (Some d))
        = (\<exists>d. validate_or_log fromiso p CustomerModel = Inr (Some d))"
    by (simp add: accepted_iff_fields)
next
  assume "CHR ''@'' \<notin> set (chars (item (fst (make_customer_candidate cid t)) ''name''))"
  then show "count_list (chars (item (fst (make_customer_candidate cid t)) ''email'')) (CHR ''@'') = 1"
    by (rule candidate_email_count)
qed

lemma customer_example_accepted:
  "validate_or_log fromisoformat_known (customer_example ''asha.rao42@gmail.com'') CustomerModel
     = Inr (Some (customer_example ''asha.rao42@gmail.com''))"
  by (simp add: run_defs customer_example_def fromisoformat_known_def validate_iso_or_none_def
      validate_iso_def replace_Z_def mobile_field_def validate_mobile_def isdigit_def
      isdigit_char_def ascii_digit_def)

theorem candidate_email_one_at_witness:
  "(\<exists>d. validate_or_log fromisoformat_known
          (with_email ''no-at-sign'' (customer_example ''asha.rao42@gmail.com'')) CustomerModel
        = Inr (Some d))
   \<and> count_list (chars (item (fst (make_customer_candidate PNone cust_tape)) ''email'')) (CHR ''@'') = 1"
proof -
  have m: "map_of (customer_example ''asha.rao42@gmail.com'') ''email''
             = Some (PStr ''asha.rao42@gmail.com'')"
    by (simp add: customer_example_def)
  have h: "CHR ''@'' \<notin> set (chars (item (fst (make_customer_candidate PNone cust_tape)) ''name''))"
    unfolding make_customer_candidate_def cust_tape_def
    by (simp add: split_def Let_def item_def chars_def truthy_def next_str_def)
  from candidate_email_one_at
         [of "customer_example ''asha.rao42@gmail.com''" "''asha.rao42@gmail.com''"
            fromisoformat_known "''no-at-sign''" PNone cust_tape]
       m h customer_example_accepted
  show ?thesis by auto
qed


section \<open>Properties of the uniqueness-constrained factories\<close>

subsection \<open>Bounds on the generated amounts\<close>

lemma uniform_bounds:
  assumes "a \<le> b"
  shows "a \<le> fst (uniform a b t)" and "fst (uniform a b t) \<le> b"
proof -
  define f :: rat where "f = of_int (fst (next_int t) mod 1000000) / 1000000"
  have f0: "0 \<le> f" unfolding f_def by simp
  have "fst (next_int t) mod 1000000 < 1000000" by simp
  then have "(of_int (fst (next_int t) mod 1000000) :: rat) < 1000000"
    by (metis of_int_less_iff of_int_numeral)
  then have f1: "f \<le> 1" unfolding f_def by simp
  have u: "fst (uniform a b t) = a + (b - a) * f"
    unfolding uniform_def f_def by (simp add: split_def Let_def)
  from assms f0 show "a \<le> fst (uniform a b t)" unfolding u by simp
  have "(b - a) * f \<le> (b - a) * 1" using assms f1 by (intro mult_left_mono) auto
  then show "fst (uniform a b t) \<le> b" unfolding u by simp
qed


lemma round_half_up_bounds:
  "0 \<le> x \<Longrightarrow> 0 \<le> round_half_up x \<and> of_int (round_half_up x) \<le> x + 1 / 2"
  unfolding round_half_up_def by (simp add: floor_le_iff) linarith?

lemma quantize_small:
  assumes "0 \<le> x" "x \<le> 10 ^ 25"
  shows "quantize x = Inr (of_int (round_half_up (x * 100)) / 100)"
proof -
  have b: "0 \<le> round_half_up (x * 100) \<and> of_int (round_half_up (x * 100)) \<le> x * 100 + 1 / 2"
    using assms by (intro round_half_up_bounds) simp
  have "x * 100 + 1 / 2 < 10 ^ 28" using assms by simp
  with b have "(of_int (round_half_up (x * 100)) :: rat) < 10 ^ 28" by linarith
  then have "round_half_up (x * 100) < 10 ^ 28"
    by (metis of_int_less_iff of_int_numeral of_int_power)
  with b show ?thesis unfolding quantize_def Let_def by simp
qed

lemma py_round_bounds:
  assumes "0 \<le> x"
  shows "0 \<le> py_round x k" and "py_round x k \<le> x + 1"
proof -
  have p: "(0::rat) < 10 ^ k" by simp
  have "0 \<le> x * 10 ^ k + 1 / 2" using assms by simp
  then have "0 \<le> \<lfloor>x * 10 ^ k + 1 / 2\<rfloor>" by simp
  then show "0 \<le> py_round x k" unfolding py_round_def by simp
  have "of_int \<lfloor>x * 10 ^ k + 1 / 2\<rfloor> \<le> x * 10 ^ k + 1 / 2" by simp
  also have "\<dots> \<le> x * 10 ^ k + 1 * 10 ^ k"
  proof -
    have "(1::rat) \<le> 10 ^ k" by simp
    then have "(1::rat) / 2 \<le> 1 * 10 ^ k" by linarith
    then show ?thesis by (simp only: add_left_mono)
  qed
  finally have "of_int \<lfloor>x * 10 ^ k + 1 / 2\<rfloor> \<le> (x + 1) * 10 ^ k" by (simp add: algebra_simps)
  then show "py_round x k \<le> x + 1" unfolding py_round_def using p
    by (simp add: pos_divide_le_eq)
qed

subsection \<open>Which validators raise what\<close>

lemma validate_iso_raises: "validate_iso fromiso v = Inl e \<Longrightarrow> e = ValueError"
  unfolding validate_iso_def by (auto split: pyval.splits if_splits)

lemma validate_iso_or_none_raises: "validate_iso_or_none fromiso v = Inl e \<Longrightarrow> e = ValueError"
  unfolding validate_iso_or_none_def using validate_iso_raises by (auto split: if_splits)

lemma mobile_field_raises: "mobile_field v = Inl e \<Longrightarrow> e = ValueError"
  unfolding mobile_field_def validate_mobile_def by (auto split: pyval.splits if_splits sum.splits)

lemma name_nonempty_raises: "name_nonempty n v = Inl e \<Longrightarrow> e = ValueError"
  unfolding name_nonempty_def Let_def by (auto split: pyval.splits if_splits)

lemma run_field_plain: "\<exists>r. run_field (plain n ty) p = Inr r"
  unfolding run_field_def plain_def caught_def by (auto split: option.splits)

lemma run_field_type_tag: "\<exists>r. run_field (type_tag l) p = Inr r"
  unfolding run_field_def type_tag_def caught_def by (auto split: option.splits)

lemma run_field_with_before:
  assumes "\<And>v e. b v = Inl e \<Longrightarrow> e = ValueError"
  shows "\<exists>r. run_field (with_before n b ty) p = Inr r"
  unfolding run_field_def with_before_def caught_def using assms
  by (auto split: option.splits sum.splits)

lemma run_field_with_after:
  assumes "\<And>v e. a v = Inl e \<Longrightarrow> e = ValueError"
  shows "\<exists>r. run_field (with_after n ty a) p = Inr r"
  unfolding run_field_def with_after_def caught_def using assms
  by (auto split: option.splits sum.splits)

lemma validate_fields_total:
  assumes "\<And>f. f \<in> set fs \<Longrightarrow> \<exists>r. run_field f p = Inr r"
  shows "\<exists>r. validate_fields fs p = Inr r"
  using assms
proof (induction fs)
  case Nil
  then show ?case by simp
next
  case (Cons f fs)
  from Cons.prems obtain r where r: "run_field f p = Inr r" by auto
  from Cons obtain rest where rest: "validate_fields fs p = Inr rest" by auto
  show ?case by (simp add: r rest)
qed

lemma validate_or_log_total:
  assumes "\<And>f. f \<in> set (model_fields fromiso cls) \<Longrightarrow> \<exists>r. run_field f p = Inr r"
    and "2 \<le> length p" and "cls \<noteq> OrderItemModel"
  shows "\<exists>r. validate_or_log fromiso p cls = Inr r"
proof -
  from validate_fields_total[OF assms(1)] obtain r
    where r: "validate_fields (model_fields fromiso cls) p = Inr r" by blast
  show ?thesis
    using assms(2,3)
    by (cases r) (simp_all add: validate_or_log_def model_validate_def r model_after_def diagnostic_id_def)
qed

lemma customer_fields_total:
  "f \<in> set (model_fields fromiso CustomerModel) \<Longrightarrow> \<exists>r. run_field f p = Inr r"
  using run_field_plain run_field_type_tag
    run_field_with_before[of "validate_iso_or_none fromiso", OF validate_iso_or_none_raises]
    run_field_with_after[of mobile_field, OF mobile_field_raises]
  by auto

lemma candidate_length: "length (fst (make_customer_candidate cid t)) = 10"
  unfolding make_customer_candidate_def by (simp add: split_def Let_def)

lemma customer_validate_total:
  "\<exists>r. validate_or_log fromiso (fst (make_customer_candidate cid t)) CustomerModel = Inr r"
  by (rule validate_or_log_total) (simp_all add: customer_fields_total candidate_length)

lemma customer_attempt_total:
  "\<exists>r reg' t'. customer_attempt fromiso cid reg t = Inr (r, reg', t')"
proof -
  obtain r where "validate_or_log fromiso (fst (make_customer_candidate cid t)) CustomerModel = Inr r"
    using customer_validate_total by blast
  then show ?thesis
    unfolding customer_attempt_def by (cases r) (simp_all add: split_def Let_def)
qed

lemma customer_attempt_none:
  "customer_attempt fromiso cid reg t = Inr (None, reg', t') \<Longrightarrow> reg' = reg"
  unfolding customer_attempt_def
  by (auto simp: split_def Let_def split: if_splits sum.splits option.splits)

lemma run_field_price:
  assumes "map_of p n = Some (PDec q)" "0 \<le> q" "q \<le> 10 ^ 25"
  shows "\<exists>r. run_field (with_after n TDecimal validate_price) p = Inr r"
  unfolding run_field_def with_after_def caught_def validate_price_def to_decimal_def
    Decimal_str_def
  using assms by (simp add: quantize_small)

lemma run_field_rating:
  assumes "map_of p n = Some (PDec q)" "0 \<le> q" "q \<le> 10 ^ 25"
  shows "\<exists>r. run_field (with_before n rating_ok (TOptional TDecimal)) p = Inr r"
  unfolding run_field_def with_before_def caught_def rating_ok_def to_decimal_def
    Decimal_str_def
  using assms by (simp add: quantize_small)

lemma priced_bounds:
  assumes "0 \<le> a" "a \<le> b" "b \<le> 10000"
  shows "0 \<le> py_round (fst (uniform a b t)) k" and "py_round (fst (uniform a b t)) k \<le> 10 ^ 25"
proof -
  have u: "0 \<le> fst (uniform a b t)" "fst (uniform a b t) \<le> b"
    using assms uniform_bounds[of a b t] by auto
  show "0 \<le> py_round (fst (uniform a b t)) k" using u by (simp add: py_round_bounds)
  have "py_round (fst (uniform a b t)) k \<le> fst (uniform a b t) + 1"
    using u by (simp add: py_round_bounds)
  then show "py_round (fst (uniform a b t)) k \<le> 10 ^ 25" using u assms by simp
qed

lemma restaurant_validate_total:
  assumes "0 \<le> q" "q \<le> 10 ^ 25"
  shows "\<exists>r. validate_or_log fromiso
           [(''type'', ty), (''restaurant_id'', rid), (''name'', nm), (''cuisine_type'', cu),
            (''pricing_for_2'', PDec q), (''location_id'', loc), (''created_date'', cd)]
           RestaurantModel = Inr r"
  apply (rule validate_or_log_total)
  using run_field_plain run_field_type_tag
    run_field_with_before[of "validate_iso fromiso", OF validate_iso_raises]
    run_field_with_after[of "name_nonempty 200", OF name_nonempty_raises]
    run_field_price[of _ "''pricing_for_2''" q] assms
  by auto

lemma menu_validate_total:
  assumes "0 \<le> q" "q \<le> 10 ^ 25"
  shows "\<exists>r. validate_or_log fromiso
           [(''type'', ty), (''menu_id'', mid), (''restaurant_id'', rid), (''itemname'', nm),
            (''description'', de), (''price'', PDec q), (''activeflag'', af),
            (''created_date'', cd)]
           MenuModel = Inr r"
  apply (rule validate_or_log_total)
  using run_field_plain run_field_type_tag
    run_field_with_before[of "validate_iso fromiso", OF validate_iso_raises]
    run_field_with_after[of "name_nonempty 150", OF name_nonempty_raises]
    run_field_price[of _ "''price''" q] assms
  by auto

lemma deliveryagent_validate_total:
  assumes "0 \<le> q" "q \<le> 10 ^ 25"
  shows "\<exists>r. validate_or_log fromiso
           [(''type'', ty), (''deliveryagent_id'', aid), (''name'', nm), (''phone'', ph),
            (''vehicle_type'', ve), (''location_id'', loc), (''status'', st),
            (''rating'', PDec q), (''created_date'', cd)]
           DeliveryAgentModel = Inr r"
  apply (rule validate_or_log_total)
  using run_field_plain run_field_type_tag
    run_field_with_before[of "validate_iso fromiso", OF validate_iso_raises]
    run_field_with_after[of mobile_field, OF mobile_field_raises]
    run_field_rating[of _ "''rating''" q] assms
  by auto


lemma restaurant_validate_not_Inl:
  "validate_or_log fromiso
     [(''type'', ty), (''restaurant_id'', rid), (''name'', nm), (''cuisine_type'', cu),
      (''pricing_for_2'', PDec (py_round (fst (uniform 100 2000 tt)) 2)), (''location_id'', loc),
      (''created_date'', cd)]
     RestaurantModel \<noteq> Inl e"
proof -
  have "\<exists>r. validate_or_log fromiso
     [(''type'', ty), (''restaurant_id'', rid), (''name'', nm), (''cuisine_type'', cu),
      (''pricing_for_2'', PDec (py_round (fst (uniform 100 2000 tt)) 2)), (''location_id'', loc),
      (''created_date'', cd)]
     RestaurantModel = Inr r"
    by (rule restaurant_validate_total) (rule priced_bounds; simp)+
  then show ?thesis by auto
qed

lemma menu_validate_not_Inl:
  "validate_or_log fromiso
     [(''type'', ty), (''menu_id'', mid), (''restaurant_id'', rid), (''itemname'', nm),
      (''description'', de), (''price'', PDec (py_round (fst (uniform 50 800 tt)) 2)),
      (''activeflag'', af), (''created_date'', cd)]
     MenuModel \<noteq> Inl e"
proof -
  have "\<exists>r. validate_or_log fromiso
     [(''type'', ty), (''menu_id'', mid), (''restaurant_id'', rid), (''itemname'', nm),
      (''description'', de), (''price'', PDec (py_round (fst (uniform 50 800 tt)) 2)),
      (''activeflag'', af), (''created_date'', cd)]
     MenuModel = Inr r"
    by (rule menu_validate_total) (rule priced_bounds; simp)+
  then show ?thesis by auto
qed

lemma deliveryagent_validate_not_Inl:
  "validate_or_log fromiso
     [(''type'', ty), (''deliveryagent_id'', aid), (''name'', nm), (''phone'', ph),
      (''vehicle_type'', ve), (''location_id'', loc), (''status'', st),
      (''rating'', PDec (py_round (fst (uniform 1 5 tt)) k)), (''created_date'', cd)]
     DeliveryAgentModel \<noteq> Inl e"
proof -
  have "\<exists>r. validate_or_log fromiso
     [(''type'', ty), (''deliveryagent_id'', aid), (''name'', nm), (''phone'', ph),
      (''vehicle_type'', ve), (''location_id'', loc), (''status'', st),
      (''rating'', PDec (py_round (fst (uniform 1 5 tt)) k)), (''created_date'', cd)]
     DeliveryAgentModel = Inr r"
    by (rule deliveryagent_validate_total) (rule priced_bounds; simp)+
  then show ?thesis by auto
qed

lemma restaurant_attempt_total:
  "\<exists>r reg' t'. restaurant_attempt fromiso reg t = Inr (r, reg', t')"
  unfolding restaurant_attempt_def
  by (simp add: split_def Let_def restaurant_validate_not_Inl split: sum.splits option.splits)

lemma menu_attempt_total:
  "\<exists>r reg' t'. menu_attempt fromiso rid reg t = Inr (r, reg', t')"
  unfolding menu_attempt_def
  by (simp add: split_def Let_def menu_validate_not_Inl split: sum.splits option.splits)

lemma deliveryagent_attempt_total:
  "\<exists>r reg' t'. deliveryagent_attempt fromiso reg t = Inr (r, reg', t')"
  unfolding deliveryagent_attempt_def
  by (simp add: split_def Let_def deliveryagent_validate_not_Inl split: sum.splits option.splits)

lemma restaurant_attempt_none:
  "restaurant_attempt fromiso reg t = Inr (None, reg', t') \<Longrightarrow> reg' = reg"
  unfolding restaurant_attempt_def
  by (auto simp: split_def Let_def split: if_splits sum.splits option.splits)

lemma menu_attempt_none:
  "menu_attempt fromiso rid reg t = Inr (None, reg', t') \<Longrightarrow> reg' = reg"
  unfolding menu_attempt_def
  by (auto simp: split_def Let_def split: if_splits sum.splits option.splits)

lemma deliveryagent_attempt_none:
  "deliveryagent_attempt fromiso reg t = Inr (None, reg', t') \<Longrightarrow> reg' = reg"
  unfolding deliveryagent_attempt_def
  by (auto simp: split_def Let_def split: if_splits sum.splits option.splits)

lemma attempts_total:
  assumes "\<And>reg t. \<exists>r reg' t'. body reg t = Inr (r, reg', t')"
  shows "\<exists>r reg' t'. attempts n body reg t = Inr (r, reg', t')"
proof (induction n arbitrary: reg t)
  case 0
  then show ?case by simp
next
  case (Suc n)
  from assms obtain r reg' t' where b: "body reg t = Inr (r, reg', t')" by blast
  show ?case using Suc[of reg' t'] by (cases r) (simp_all add: b)
qed

lemma attempts_none:
  assumes "\<And>reg t reg' t'. body reg t = Inr (None, reg', t') \<Longrightarrow> reg' = reg"
  shows "attempts n body reg t = Inr (None, reg', t') \<Longrightarrow> reg' = reg"
proof (induction n arbitrary: reg t)
  case 0
  then show ?case by simp
next
  case (Suc n)
  from Suc.prems obtain ra ta where b: "body reg t = Inr (None, ra, ta)"
    and a: "attempts n body ra ta = Inr (None, reg', t')"
    by (auto split: sum.splits option.splits)
  from assms[OF b] have "ra = reg" .
  moreover from Suc.IH[OF a] have "reg' = ra" .
  ultimately show ?case by simp
qed

lemma iterations_le: "iterations n body reg t \<le> n"
  by (induction n arbitrary: reg t) (auto split: sum.splits option.splits)

lemma attempts_quiet:
  assumes "\<And>reg t. \<exists>r reg' t'. body reg t = Inr (r, reg', t')"
    and "\<And>reg t reg' t'. body reg t = Inr (None, reg', t') \<Longrightarrow> reg' = reg"
  shows "\<exists>r reg' t'. attempts n body reg t = Inr (r, reg', t') \<and> (r = None \<longrightarrow> reg' = reg)"
proof -
  from attempts_total[of body n reg t, OF assms(1)] obtain r reg' t'
    where e: "attempts n body reg t = Inr (r, reg', t')" by blast
  have "r = None \<longrightarrow> reg' = reg"
  proof
    assume "r = None"
    with e have "attempts n body reg t = Inr (None, reg', t')" by simp
    then show "reg' = reg" using assms(2) by (rule attempts_none[rotated])
  qed
  with e show ?thesis by blast
qed

lemma customer_gives_up:
  "map_sum id fst (make_customer_unique fromisoformat_known PNone empty_registry []) = Inr None"
  by code_simp

lemma attempt_tape_shift:
  "body reg t = Inr (r, reg', t1)
     \<Longrightarrow> attempt_tape body reg t (Suc i) = attempt_tape body reg t1 i"
proof (induction i)
  case 0
  then show ?case by simp
next
  case (Suc i)
  have "attempt_tape body reg t (Suc (Suc i)) =
          (case body reg (attempt_tape body reg t (Suc i)) of
             Inl e \<Rightarrow> attempt_tape body reg t (Suc i)
           | Inr (r, reg', t') \<Rightarrow> t')"
    by (simp only: attempt_tape.simps)
  also have "\<dots> = (case body reg (attempt_tape body reg t1 i) of
             Inl e \<Rightarrow> attempt_tape body reg t1 i
           | Inr (r, reg', t') \<Rightarrow> t')"
    by (simp only: Suc.IH[OF Suc.prems])
  also have "\<dots> = attempt_tape body reg t1 (Suc i)"
    by (simp only: attempt_tape.simps)
  finally show ?case .
qed

lemma attempts_retries:
  assumes total: "\<And>reg t. \<exists>r reg' t'. body reg t = Inr (r, reg', t')"
    and none: "\<And>reg t reg' t'. body reg t = Inr (None, reg', t') \<Longrightarrow> reg' = reg"
  shows "\<exists>k \<le> n.
        (\<forall>i < k. body reg (attempt_tape body reg t i)
                    = Inr (None, reg, attempt_tape body reg t (Suc i)))
        \<and> (if k = n then attempts n body reg t = Inr (None, reg, attempt_tape body reg t n)
            else (\<exists>valid reg' t'.
                    body reg (attempt_tape body reg t k) = Inr (Some valid, reg', t')
                    \<and> attempts n body reg t = Inr (Some valid, reg', t')))"
proof (induction n arbitrary: t)
  case 0
  show ?case by simp
next
  case (Suc n)
  from total obtain r ra t1 where b: "body reg t = Inr (r, ra, t1)" by blast
  show ?case
  proof (cases r)
    case (Some valid)
    show ?thesis
      by (rule exI[of _ 0]) (simp add: b Some)
  next
    case None
    with b none have ra: "ra = reg" by blast
    from b None ra have b': "body reg t = Inr (None, reg, t1)" by simp
    have sh: "attempt_tape body reg t (Suc i) = attempt_tape body reg t1 i" for i
      using b' by (rule attempt_tape_shift)
    have a: "attempts (Suc n) body reg t = attempts n body reg t1" by (simp add: b')
    from Suc.IH[of t1] obtain k where k: "k \<le> n"
      and f: "\<forall>i < k. body reg (attempt_tape body reg t1 i)
                    = Inr (None, reg, attempt_tape body reg t1 (Suc i))"
      and e: "if k = n then attempts n body reg t1 = Inr (None, reg, attempt_tape body reg t1 n)
            else (\<exists>valid reg' t'.
                    body reg (attempt_tape body reg t1 k) = Inr (Some valid, reg', t')
                    \<and> attempts n body reg t1 = Inr (Some valid, reg', t'))"
      by blast
    have f': "\<forall>i < Suc k. body reg (attempt_tape body reg t i)
                    = Inr (None, reg, attempt_tape body reg t (Suc i))"
    proof (intro allI impI)
      fix i assume "i < Suc k"
      show "body reg (attempt_tape body reg t i) = Inr (None, reg, attempt_tape body reg t (Suc i))"
      proof (cases i)
        case 0
        then show ?thesis by (simp add: b')
      next
        case (Suc j)
        with \<open>i < Suc k\<close> have "j < k" by simp
        with f have "body reg (attempt_tape body reg t1 j)
                       = Inr (None, reg, attempt_tape body reg t1 (Suc j))" by blast
        then show ?thesis unfolding Suc sh .
      qed
    qed
    have e': "if Suc k = Suc n
            then attempts (Suc n) body reg t = Inr (None, reg, attempt_tape body reg t (Suc n))
            else (\<exists>valid reg' t'.
                    body reg (attempt_tape body reg t (Suc k)) = Inr (Some valid, reg', t')
                    \<and> attempts (Suc n) body reg t = Inr (Some valid, reg', t'))"
      using e unfolding a sh by simp
    from k f' e' show ?thesis by (intro exI[of _ "Suc k"]) blast
  qed
qed

lemma retries_attempts:
  assumes "\<And>reg t. \<exists>r reg' t'. body reg t = Inr (r, reg', t')"
    and "\<And>reg t reg' t'. body reg t = Inr (None, reg', t') \<Longrightarrow> reg' = reg"
  shows "retries n body (attempts n body)"
  unfolding retries_def
proof (intro allI)
  fix reg t
  show "\<exists>k \<le> n.
        (\<forall>i < k. body reg (attempt_tape body reg t i)
                    = Inr (None, reg, attempt_tape body reg t (Suc i)))
        \<and> (if k = n then attempts n body reg t = Inr (None, reg, attempt_tape body reg t n)
            else (\<exists>valid reg' t'.
                    body reg (attempt_tape body reg t k) = Inr (Some valid, reg', t')
                    \<and> attempts n body reg t = Inr (Some valid, reg', t')))"
    by (rule attempts_retries) (rule assms(1), erule assms(2))
qed

text \<open>
  C6. Each of \<open>make_customer_unique\<close>, \<open>make_restaurant_unique\<close>, \<open>make_menu_unique\<close>
  and \<open>make_deliveryagent_unique\<close> retries its loop body up to 20 times (\<open>retries\<close>):
  it returns the record of the first attempt that yields one, making no further attempt,
  and when all 20 attempts fail it returns \<open>None\<close> with the registry as it was called
  with. So it runs its body at most 20 times, always returns (it never ends with an
  exception), and registers no key without returning a record.
\<close>

theorem unique_factories_give_up_quietly:
  "retries 20 (customer_attempt fromiso cid) (make_customer_unique fromiso cid)
   \<and> retries 20 (restaurant_attempt fromiso) (make_restaurant_unique fromiso)
   \<and> retries 20 (menu_attempt fromiso rid) (make_menu_unique fromiso rid)
   \<and> retries 20 (deliveryagent_attempt fromiso) (make_deliveryagent_unique fromiso)
   \<and> (\<exists>r reg' t'. make_customer_unique fromiso cid reg t = Inr (r, reg', t')
       \<and> (r = None \<longrightarrow> reg' = reg))
   \<and> (\<exists>r reg' t'. make_restaurant_unique fromiso reg t = Inr (r, reg', t')
       \<and> (r = None \<longrightarrow> reg' = reg))
   \<and> (\<exists>r reg' t'. make_menu_unique fromiso rid reg t = Inr (r, reg', t')
       \<and> (r = None \<longrightarrow> reg' = reg))
   \<and> (\<exists>r reg' t'. make_deliveryagent_unique fromiso reg t = Inr (r, reg', t')
       \<and> (r = None \<longrightarrow> reg' = reg))
   \<and> iterations MAX_UNIQUENESS_ATTEMPTS (customer_attempt fromiso cid) reg t \<le> 20
   \<and> iterations MAX_UNIQUENESS_ATTEMPTS (restaurant_attempt fromiso) reg t \<le> 20
   \<and> iterations MAX_UNIQUENESS_ATTEMPTS (menu_attempt fromiso rid) reg t \<le> 20
   \<and> iterations MAX_UNIQUENESS_ATTEMPTS (deliveryagent_attempt fromiso) reg t \<le> 20"
proof -
  have rc: "retries 20 (customer_attempt fromiso cid) (make_customer_unique fromiso cid)"
    unfolding make_customer_unique_def MAX_UNIQUENESS_ATTEMPTS_def
    by (rule retries_attempts) (rule customer_attempt_total, erule customer_attempt_none)
  have rr: "retries 20 (restaurant_attempt fromiso) (make_restaurant_unique fromiso)"
    unfolding make_restaurant_unique_def MAX_UNIQUENESS_ATTEMPTS_def
    by (rule retries_attempts) (rule restaurant_attempt_total, erule restaurant_attempt_none)
  have rm: "retries 20 (menu_attempt fromiso rid) (make_menu_unique fromiso rid)"
    unfolding make_menu_unique_def MAX_UNIQUENESS_ATTEMPTS_def
    by (rule retries_attempts) (rule menu_attempt_total, erule menu_attempt_none)
  have ra: "retries 20 (deliveryagent_attempt fromiso) (make_deliveryagent_unique fromiso)"
    unfolding make_deliveryagent_unique_def MAX_UNIQUENESS_ATTEMPTS_def
    by (rule retries_attempts)
      (rule deliveryagent_attempt_total, erule deliveryagent_attempt_none)
  have c: "\<exists>r reg' t'. make_customer_unique fromiso cid reg t = Inr (r, reg', t')
       \<and> (r = None \<longrightarrow> reg' = reg)"
    unfolding make_customer_unique_def
    by (rule attempts_quiet) (rule customer_attempt_total, erule customer_attempt_none)
  have r: "\<exists>r reg' t'. make_restaurant_unique fromiso reg t = Inr (r, reg', t')
       \<and> (r = None \<longrightarrow> reg' = reg)"
    unfolding make_restaurant_unique_def
    by (rule attempts_quiet) (rule restaurant_attempt_total, erule restaurant_attempt_none)
  have m: "\<exists>r reg' t'. make_menu_unique fromiso rid reg t = Inr (r, reg', t')
       \<and> (r = None \<longrightarrow> reg' = reg)"
    unfolding make_menu_unique_def
    by (rule attempts_quiet) (rule menu_attempt_total, erule menu_attempt_none)
  have a: "\<exists>r reg' t'. make_deliveryagent_unique fromiso reg t = Inr (r, reg', t')
       \<and> (r = None \<longrightarrow> reg' = reg)"
    unfolding make_deliveryagent_unique_def
    by (rule attempts_quiet) (rule deliveryagent_attempt_total, erule deliveryagent_attempt_none)
  have i: "\<And>body. iterations MAX_UNIQUENESS_ATTEMPTS body reg t \<le> 20"
    using iterations_le[of MAX_UNIQUENESS_ATTEMPTS] by (simp add: MAX_UNIQUENESS_ATTEMPTS_def)
  from rc rr rm ra c r m a i show ?thesis by blast
qed

theorem unique_factories_give_up_quietly_witness:
  "make_customer_unique fromisoformat_known PNone empty_registry []
     = Inr (None, empty_registry,
            attempt_tape (customer_attempt fromisoformat_known PNone) empty_registry [] 20)"
proof -
  from unique_factories_give_up_quietly
         [where fromiso = fromisoformat_known and cid = PNone]
  have "retries 20 (customer_attempt fromisoformat_known PNone)
          (make_customer_unique fromisoformat_known PNone)"
    by blast
  then obtain k where
    e: "if k = 20
        then make_customer_unique fromisoformat_known PNone empty_registry []
               = Inr (None, empty_registry,
                      attempt_tape (customer_attempt fromisoformat_known PNone) empty_registry [] 20)
        else (\<exists>valid reg' t'.
                customer_attempt fromisoformat_known PNone empty_registry
                  (attempt_tape (customer_attempt fromisoformat_known PNone) empty_registry [] k)
                  = Inr (Some valid, reg', t')
                \<and> make_customer_unique fromisoformat_known PNone empty_registry []
                    = Inr (Some valid, reg', t'))"
    unfolding retries_def by blast
  show ?thesis
  proof (cases "k = 20")
    case True
    with e show ?thesis by simp
  next
    case False
    with e obtain valid reg' t' where
      "make_customer_unique fromisoformat_known PNone empty_registry []
         = Inr (Some valid, reg', t')" by auto
    with customer_gives_up show ?thesis by simp
  qed
qed


section \<open>Natural keys over a process lifetime\<close>

subsection \<open>The fields of a validated record\<close>

lemma fname_simps [simp]:
  "fname (plain n ty) = n" "fname (with_before n b ty) = n" "fname (with_after n ty a) = n"
  "fname (type_tag l) = ''type''"
  by (simp_all add: plain_def with_before_def with_after_def type_tag_def)

lemma validate_fields_item:
  "validate_fields fs p = Inr (Some d) \<Longrightarrow> distinct (map fname fs) \<Longrightarrow> f \<in> set fs
     \<Longrightarrow> run_field f p = Inr (Some (item d (fname f)))"
proof (induction fs arbitrary: d)
  case Nil
  then show ?case by simp
next
  case (Cons g gs)
  from Cons.prems(1) obtain v d' where
    g: "run_field g p = Inr (Some v)" and gs: "validate_fields gs p = Inr (Some d')"
    and d: "d = (fname g, v) # d'"
    by (auto split: sum.splits option.splits)
  show ?case
  proof (cases "f = g")
    case True
    then show ?thesis by (simp add: g d item_def)
  next
    case False
    with Cons.prems(3) have f: "f \<in> set gs" by simp
    from Cons.prems(2) have "fname g \<notin> fname ` set gs" by simp
    with f have n: "fname f \<noteq> fname g" by (metis imageI)
    from Cons.IH[OF gs _ f] Cons.prems(2) have "run_field f p = Inr (Some (item d' (fname f)))"
      by simp
    then show ?thesis using n by (simp add: d item_def)
  qed
qed

lemma validate_or_log_fields:
  "validate_or_log fromiso p cls = Inr (Some d)
     \<Longrightarrow> validate_fields (model_fields fromiso cls) p = Inr (Some d)"
  unfolding validate_or_log_def model_validate_def model_after_def
  by (auto split: sum.splits option.splits if_splits pyval.splits)

lemma validated_item:
  assumes "validate_or_log fromiso p cls = Inr (Some d)"
    and "distinct (map fname (model_fields fromiso cls))"
    and "f \<in> set (model_fields fromiso cls)"
  shows "run_field f p = Inr (Some (item d (fname f)))"
  using validate_fields_item[OF validate_or_log_fields[OF assms(1)] assms(2,3)] .

lemma run_field_type_tag_value:
  "run_field (type_tag l) p = Inr (Some v) \<Longrightarrow> v = PStr l"
  unfolding run_field_def type_tag_def caught_def
  by (auto split: option.splits if_splits)

lemma run_field_plain_str:
  "run_field (plain n TStr) p = Inr (Some v) \<Longrightarrow> map_of p n = Some (PStr s) \<Longrightarrow> v = PStr s"
  unfolding run_field_def plain_def caught_def by simp

lemma run_field_plain_opt_str:
  "run_field (plain n (TOptional TStr)) p = Inr (Some v) \<Longrightarrow> map_of p n = Some (PStr s)
     \<Longrightarrow> v = PStr s"
  unfolding run_field_def plain_def caught_def by simp

lemma run_field_mobile:
  "run_field (with_after n TStr mobile_field) p = Inr (Some v) \<Longrightarrow> map_of p n = Some (PStr s)
     \<Longrightarrow> v = PStr s"
  unfolding run_field_def with_after_def caught_def mobile_field_def validate_mobile_def
  by (auto split: if_splits)

lemma run_field_iso_or_none:
  "run_field (with_before n (validate_iso_or_none fromiso) (TOptional TStr)) p = Inr (Some v)
     \<Longrightarrow> map_of p n = Some (PStr s) \<Longrightarrow> v = PStr s"
  unfolding run_field_def with_before_def caught_def validate_iso_or_none_def validate_iso_def
  by (auto split: if_splits option.splits)

lemma run_field_name:
  "run_field (with_after n TStr (name_nonempty k)) p = Inr (Some v)
     \<Longrightarrow> map_of p n = Some (PStr s) \<Longrightarrow> v = PStr (strip s)"
  unfolding run_field_def with_after_def caught_def name_nonempty_def Let_def
  by (auto split: if_splits)


lemma customer_valid_keys:
  assumes "validate_or_log fromiso p CustomerModel = Inr (Some valid)"
    and "p = [(''type'', ty), (''customer_id'', cid), (''name'', PStr name),
              (''mobile'', PStr mobile), (''email'', PStr email), (''loginbyusing'', lb),
              (''gender'', g), (''dob'', PStr dob), (''preferences'', pr),
              (''created_date'', cd)]"
  shows "item valid ''type'' = PStr ''customer''"
    and "item valid ''name'' = PStr name"
    and "item valid ''mobile'' = PStr mobile"
    and "item valid ''email'' = PStr email"
    and "item valid ''dob'' = PStr dob"
proof -
  have d: "distinct (map fname (model_fields fromiso CustomerModel))" by simp
  show "item valid ''type'' = PStr ''customer''"
    using validated_item[OF assms(1) d, of "type_tag ''customer''"]
    by (auto dest: run_field_type_tag_value)
  show "item valid ''name'' = PStr name"
    using validated_item[OF assms(1) d, of "plain ''name'' TStr"]
    by (auto dest: run_field_plain_str simp: assms(2))
  show "item valid ''mobile'' = PStr mobile"
    using validated_item[OF assms(1) d, of "with_after ''mobile'' TStr mobile_field"]
    by (auto dest: run_field_mobile simp: assms(2))
  show "item valid ''email'' = PStr email"
    using validated_item[OF assms(1) d, of "plain ''email'' TStr"]
    by (auto dest: run_field_plain_str simp: assms(2))
  show "item valid ''dob'' = PStr dob"
    using validated_item[OF assms(1) d,
        of "with_before ''dob'' (validate_iso_or_none fromiso) (TOptional TStr)"]
    by (auto dest: run_field_iso_or_none simp: assms(2))
qed

lemma run_field_plain_same:
  "run_field (plain n TStr) p = Inr (Some v) \<Longrightarrow> map_of p n = Some raw \<Longrightarrow> v = raw"
  unfolding run_field_def plain_def caught_def by (cases raw) auto

lemma restaurant_valid_keys:
  assumes "validate_or_log fromiso p RestaurantModel = Inr (Some valid)"
    and "p = [(''type'', ty), (''restaurant_id'', rid), (''name'', PStr name),
              (''cuisine_type'', cu), (''pricing_for_2'', pr), (''location_id'', PStr loc),
              (''created_date'', cd)]"
  shows "item valid ''type'' = PStr ''restaurant''"
    and "item valid ''name'' = PStr (strip name)"
    and "item valid ''location_id'' = PStr loc"
proof -
  have d: "distinct (map fname (model_fields fromiso RestaurantModel))" by simp
  show "item valid ''type'' = PStr ''restaurant''"
    using validated_item[OF assms(1) d, of "type_tag ''restaurant''"]
    by (auto dest: run_field_type_tag_value)
  show "item valid ''name'' = PStr (strip name)"
    using validated_item[OF assms(1) d, of "with_after ''name'' TStr (name_nonempty 200)"]
    by (auto dest: run_field_name simp: assms(2))
  show "item valid ''location_id'' = PStr loc"
    using validated_item[OF assms(1) d, of "plain ''location_id'' (TOptional TStr)"]
    by (auto dest: run_field_plain_opt_str simp: assms(2))
qed

lemma menu_valid_keys:
  assumes "validate_or_log fromiso p MenuModel = Inr (Some valid)"
    and "p = [(''type'', ty), (''menu_id'', mid), (''restaurant_id'', rid),
              (''itemname'', PStr name), (''description'', de), (''price'', pr),
              (''activeflag'', af), (''created_date'', cd)]"
  shows "item valid ''type'' = PStr ''menu''"
    and "item valid ''itemname'' = PStr (strip name)"
    and "item valid ''restaurant_id'' = rid"
proof -
  have d: "distinct (map fname (model_fields fromiso MenuModel))" by simp
  show "item valid ''type'' = PStr ''menu''"
    using validated_item[OF assms(1) d, of "type_tag ''menu''"]
    by (auto dest: run_field_type_tag_value)
  show "item valid ''itemname'' = PStr (strip name)"
    using validated_item[OF assms(1) d, of "with_after ''itemname'' TStr (name_nonempty 150)"]
    by (auto dest: run_field_name simp: assms(2))
  show "item valid ''restaurant_id'' = rid"
    using validated_item[OF assms(1) d, of "plain ''restaurant_id'' TStr"]
    by (auto dest: run_field_plain_same simp: assms(2))
qed

lemma deliveryagent_valid_keys:
  assumes "validate_or_log fromiso p DeliveryAgentModel = Inr (Some valid)"
    and "p = [(''type'', ty), (''deliveryagent_id'', aid), (''name'', nm),
              (''phone'', PStr phone), (''vehicle_type'', ve), (''location_id'', loc),
              (''status'', st), (''rating'', ra), (''created_date'', cd)]"
  shows "item valid ''type'' = PStr ''deliveryagent''"
    and "item valid ''phone'' = PStr phone"
proof -
  have d: "distinct (map fname (model_fields fromiso DeliveryAgentModel))" by simp
  show "item valid ''type'' = PStr ''deliveryagent''"
    using validated_item[OF assms(1) d, of "type_tag ''deliveryagent''"]
    by (auto dest: run_field_type_tag_value)
  show "item valid ''phone'' = PStr phone"
    using validated_item[OF assms(1) d, of "with_after ''phone'' TStr mobile_field"]
    by (auto dest: run_field_mobile simp: assms(2))
qed

lemma candidate_shape:
  "\<exists>ty cid' name mobile email lb g dob pr cd.
     fst (make_customer_candidate cid t) =
       [(''type'', ty), (''customer_id'', cid'), (''name'', PStr name),
        (''mobile'', PStr mobile), (''email'', PStr email), (''loginbyusing'', lb),
        (''gender'', g), (''dob'', PStr dob), (''preferences'', pr), (''created_date'', cd)]"
  unfolding make_customer_candidate_def by (simp add: split_def Let_def)

lemma customer_attempt_Some:
  assumes "customer_attempt fromiso cid reg t = Inr (Some v, reg', t')"
  shows "item v ''type'' = PStr ''customer''"
    and "item v ''mobile'' \<notin> existing_customer_mobiles reg"
    and "lower (chars (item v ''email'')) \<notin> existing_customer_emails reg"
    and "customer_name_dob_key v \<notin> existing_customer_name_dob reg"
    and "reg' = reg\<lparr>existing_customer_mobiles :=
                      insert (item v ''mobile'') (existing_customer_mobiles reg),
                    existing_customer_emails :=
                      insert (lower (chars (item v ''email''))) (existing_customer_emails reg),
                    existing_customer_name_dob :=
                      insert (customer_name_dob_key v) (existing_customer_name_dob reg)\<rparr>"
proof -
  obtain ty cid' name mobile email lb g dob pr cd where
    p: "fst (make_customer_candidate cid t) =
       [(''type'', ty), (''customer_id'', cid'), (''name'', PStr name),
        (''mobile'', PStr mobile), (''email'', PStr email), (''loginbyusing'', lb),
        (''gender'', g), (''dob'', PStr dob), (''preferences'', pr), (''created_date'', cd)]"
    using candidate_shape[of cid t] by (elim exE) blast
  from assms have
    k: "PStr mobile \<notin> existing_customer_mobiles reg"
       "lower email \<notin> existing_customer_emails reg"
       "(lower (strip name), PStr dob) \<notin> existing_customer_name_dob reg"
    and v: "validate_or_log fromiso (fst (make_customer_candidate cid t)) CustomerModel
              = Inr (Some v)"
    and r: "reg' = reg\<lparr>existing_customer_mobiles :=
                      insert (item v ''mobile'') (existing_customer_mobiles reg),
                    existing_customer_emails :=
                      insert (lower (chars (item v ''email''))) (existing_customer_emails reg),
                    existing_customer_name_dob :=
                      insert (lower (strip (chars (item v ''name''))), item v ''dob'')
                        (existing_customer_name_dob reg)\<rparr>"
    unfolding customer_attempt_def
    by (auto simp: split_def Let_def p item_def chars_def
        split: if_splits sum.splits option.splits)
  note f = customer_valid_keys[OF v p]
  show "item v ''type'' = PStr ''customer''" by (rule f)
  show "item v ''mobile'' \<notin> existing_customer_mobiles reg" using k f by simp
  show "lower (chars (item v ''email'')) \<notin> existing_customer_emails reg"
    using k f by (simp add: chars_def)
  show "customer_name_dob_key v \<notin> existing_customer_name_dob reg"
    using k f by (simp add: customer_name_dob_key_def chars_def)
  show "reg' = reg\<lparr>existing_customer_mobiles :=
                      insert (item v ''mobile'') (existing_customer_mobiles reg),
                    existing_customer_emails :=
                      insert (lower (chars (item v ''email''))) (existing_customer_emails reg),
                    existing_customer_name_dob :=
                      insert (customer_name_dob_key v) (existing_customer_name_dob reg)\<rparr>"
    using r by (simp add: customer_name_dob_key_def)
qed

subsection \<open>\<open>strip\<close> and \<open>lower\<close>\<close>

lemma isspace_char_code:
  "isspace_char c =
     ((9 \<le> (of_char c :: nat) \<and> (of_char c :: nat) \<le> 13)
      \<or> (28 \<le> (of_char c :: nat) \<and> (of_char c :: nat) \<le> 32)
      \<or> (of_char c :: nat) = 133 \<or> (of_char c :: nat) = 160)"
proof -
  have a: "(c = CHR 0x85) = ((of_char c :: nat) = 133)"
    using of_char_eq_iff[of c "CHR 0x85", where ?'a = nat] by simp
  have b: "(c = CHR 0xA0) = ((of_char c :: nat) = 160)"
    using of_char_eq_iff[of c "CHR 0xA0", where ?'a = nat] by simp
  show ?thesis unfolding isspace_char_def a b ..
qed

lemma isspace_lower_char: "isspace_char (lower_char c) = isspace_char c"
  unfolding isspace_char_code of_char_lower_char by auto

lemma strip_map:
  assumes "\<And>c. isspace_char (f c) = isspace_char c"
  shows "strip (map f s) = map f (strip s)"
proof -
  have c: "isspace_char \<circ> f = isspace_char" using assms by (simp add: fun_eq_iff)
  have d: "dropWhile isspace_char (map f xs) = map f (dropWhile isspace_char xs)" for xs
    by (simp add: dropWhile_map c)
  show ?thesis
    unfolding strip_def by (simp add: d rev_map)
qed

lemma lower_strip: "lower (strip s) = strip (lower s)"
  unfolding lower_def by (simp add: strip_map isspace_lower_char)

lemma dropWhile_prefix_self:
  assumes "u = [] \<or> \<not> P (hd u)"
  shows "dropWhile P (rev (dropWhile P (rev u))) = rev (dropWhile P (rev u))"
proof (cases "rev (dropWhile P (rev u))")
  case Nil
  show ?thesis by (simp only: Nil dropWhile.simps)
next
  case (Cons x xs)
  have "rev u = takeWhile P (rev u) @ dropWhile P (rev u)" by simp
  then have "u = rev (dropWhile P (rev u)) @ rev (takeWhile P (rev u))"
    by (metis rev_append rev_rev_ident)
  with Cons have "u = (x # xs) @ rev (takeWhile P (rev u))" by simp
  then have "hd u = x" and "u \<noteq> []" by (metis append_Cons list.sel(1), auto)
  with assms have "\<not> P x" by auto
  then have "dropWhile P (x # xs) = x # xs" by simp
  then show ?thesis by (simp only: Cons)
qed

lemma strip_idem: "strip (strip s) = strip s"
proof -
  define u where "u = dropWhile isspace_char s"
  have h: "u = [] \<or> \<not> isspace_char (hd u)"
    unfolding u_def by (metis hd_dropWhile)
  have "strip (strip s) =
        rev (dropWhile isspace_char (rev (dropWhile isspace_char (rev (dropWhile isspace_char (rev u))))))"
    unfolding strip_def u_def ..
  also have "\<dots> = rev (dropWhile isspace_char (rev (rev (dropWhile isspace_char (rev u)))))"
    by (simp only: dropWhile_prefix_self[where u = u and P = isspace_char, OF h])
  also have "\<dots> = rev (dropWhile isspace_char (rev u))"
    by (simp add: dropWhile_idem)
  finally show ?thesis unfolding strip_def u_def .
qed

lemma restaurant_attempt_Some:
  assumes "restaurant_attempt fromiso reg t = Inr (Some v, reg', t')"
  shows "item v ''type'' = PStr ''restaurant''"
    and "restaurant_key v \<notin> existing_restaurant_keys reg"
    and "reg' = reg\<lparr>existing_restaurant_keys :=
                      insert (restaurant_key v) (existing_restaurant_keys reg)\<rparr>"
proof -
  define location_id where "location_id = fst (next_str t)"
  define name where "name = fst (next_str (snd (next_str t)))"
  from assms obtain p ty rid cu pr cd where
    p: "p = [(''type'', ty), (''restaurant_id'', rid), (''name'', PStr name),
             (''cuisine_type'', cu), (''pricing_for_2'', pr), (''location_id'', PStr location_id),
             (''created_date'', cd)]"
    and k: "(lower (strip name), PStr location_id) \<notin> existing_restaurant_keys reg"
    and v: "validate_or_log fromiso p RestaurantModel = Inr (Some v)"
    and r: "reg' = reg\<lparr>existing_restaurant_keys :=
                      insert (lower (strip (chars (item v ''name''))), item v ''location_id'')
                        (existing_restaurant_keys reg)\<rparr>"
    unfolding restaurant_attempt_def location_id_def name_def
    by (auto simp: split_def Let_def split: if_splits sum.splits option.splits)
  note f = restaurant_valid_keys[OF v p]
  show "item v ''type'' = PStr ''restaurant''" by (rule f)
  show "restaurant_key v \<notin> existing_restaurant_keys reg"
    using k f by (simp add: restaurant_key_def chars_def strip_idem)
  show "reg' = reg\<lparr>existing_restaurant_keys :=
                      insert (restaurant_key v) (existing_restaurant_keys reg)\<rparr>"
    using r by (simp add: restaurant_key_def)
qed

lemma menu_attempt_Some:
  assumes "menu_attempt fromiso restaurant_id reg t = Inr (Some v, reg', t')"
  shows "item v ''type'' = PStr ''menu''"
    and "menu_key v \<notin> existing_menu_keys reg"
    and "reg' = reg\<lparr>existing_menu_keys := insert (menu_key v) (existing_menu_keys reg)\<rparr>"
proof -
  define itemname where
    "itemname = strip (fst (next_str t) @ '' '' @ fst (next_str (snd (next_str t))))"
  from assms obtain p ty mid de pr af cd where
    p: "p = [(''type'', ty), (''menu_id'', mid), (''restaurant_id'', restaurant_id),
             (''itemname'', PStr itemname), (''description'', de), (''price'', pr),
             (''activeflag'', af), (''created_date'', cd)]"
    and k: "(restaurant_id, lower (strip itemname)) \<notin> existing_menu_keys reg"
    and v: "validate_or_log fromiso p MenuModel = Inr (Some v)"
    and r: "reg' = reg\<lparr>existing_menu_keys :=
                      insert (item v ''restaurant_id'', lower (strip (chars (item v ''itemname''))))
                        (existing_menu_keys reg)\<rparr>"
    unfolding menu_attempt_def itemname_def
    by (auto simp: split_def Let_def split: if_splits sum.splits option.splits)
  note f = menu_valid_keys[OF v p]
  show "item v ''type'' = PStr ''menu''" by (rule f)
  show "menu_key v \<notin> existing_menu_keys reg"
    using k f by (simp add: menu_key_def chars_def strip_idem)
  show "reg' = reg\<lparr>existing_menu_keys := insert (menu_key v) (existing_menu_keys reg)\<rparr>"
    using r by (simp add: menu_key_def)
qed

lemma deliveryagent_attempt_Some:
  assumes "deliveryagent_attempt fromiso reg t = Inr (Some v, reg', t')"
  shows "item v ''type'' = PStr ''deliveryagent''"
    and "item v ''phone'' \<notin> existing_agent_phones reg"
    and "reg' = reg\<lparr>existing_agent_phones :=
                      insert (item v ''phone'') (existing_agent_phones reg)\<rparr>"
proof -
  define phone where "phone = fst (random_phone_india t)"
  from assms obtain p ty aid nm ve loc st ra cd where
    p: "p = [(''type'', ty), (''deliveryagent_id'', aid), (''name'', nm),
             (''phone'', PStr phone), (''vehicle_type'', ve), (''location_id'', loc),
             (''status'', st), (''rating'', ra), (''created_date'', cd)]"
    and k: "PStr phone \<notin> existing_agent_phones reg"
    and v: "validate_or_log fromiso p DeliveryAgentModel = Inr (Some v)"
    and r: "reg' = reg\<lparr>existing_agent_phones :=
                      insert (item v ''phone'') (existing_agent_phones reg)\<rparr>"
    unfolding deliveryagent_attempt_def phone_def
    by (auto simp: split_def Let_def split: if_splits sum.splits option.splits)
  note f = deliveryagent_valid_keys[OF v p]
  show "item v ''type'' = PStr ''deliveryagent''" by (rule f)
  show "item v ''phone'' \<notin> existing_agent_phones reg" using k f by simp
  show "reg' = reg\<lparr>existing_agent_phones :=
                      insert (item v ''phone'') (existing_agent_phones reg)\<rparr>"
    by (rule r)
qed

lemma attempts_Some:
  assumes "\<And>reg t reg' t'. body reg t = Inr (None, reg', t') \<Longrightarrow> reg' = reg"
  shows "attempts n body reg t = Inr (Some v, reg', t')
           \<Longrightarrow> \<exists>t0. body reg t0 = Inr (Some v, reg', t')"
proof (induction n arbitrary: t)
  case 0
  then show ?case by simp
next
  case (Suc n)
  show ?case
  proof (cases "body reg t")
    case (Inl e)
    with Suc.prems show ?thesis by simp
  next
    case (Inr x)
    obtain r ra ta where x: "x = (r, ra, ta)" by (cases x) auto
    show ?thesis
    proof (cases r)
      case None
      with Inr x assms have "ra = reg" by simp
      with Suc.prems Inr x None have "attempts n body reg ta = Inr (Some v, reg', t')" by simp
      then show ?thesis by (rule Suc.IH)
    next
      case (Some w)
      with Suc.prems Inr x show ?thesis by auto
    qed
  qed
qed

subsection \<open>The registry holds the keys of what was returned\<close>

lemma of_type_append:
  "of_type ty (rows @ [v]) =
     (if item v ''type'' = PStr ty then of_type ty rows @ [v] else of_type ty rows)"
  by (simp add: of_type_def)

lemma keyed_mono: "keyed ty key S rows \<Longrightarrow> S \<subseteq> S' \<Longrightarrow> keyed ty key S' rows"
  unfolding keyed_def by blast

lemma keyed_skip:
  "item v ''type'' \<noteq> PStr ty \<Longrightarrow> keyed ty key S (rows @ [v]) = keyed ty key S rows"
  unfolding keyed_def by (simp add: of_type_append)

lemma keyed_add:
  "keyed ty key S rows \<Longrightarrow> item v ''type'' = PStr ty \<Longrightarrow> key v \<notin> S
     \<Longrightarrow> keyed ty key (insert (key v) S) (rows @ [v])"
  unfolding keyed_def by (auto simp: of_type_append)

lemma registered_empty: "registered empty_registry []"
  by (simp add: registered_def keyed_def of_type_def)

lemma registered_customer:
  assumes "registered reg rows" and "customer_attempt fromiso cid reg t = Inr (Some v, reg', t')"
  shows "registered reg' (rows @ [v])"
proof -
  note f = customer_attempt_Some[OF assms(2)]
  from assms(1) have
    k: "keyed ''customer'' (\<lambda>c. item c ''mobile'') (existing_customer_mobiles reg) rows"
       "keyed ''customer'' (\<lambda>c. lower (chars (item c ''email''))) (existing_customer_emails reg) rows"
       "keyed ''customer'' customer_name_dob_key (existing_customer_name_dob reg) rows"
    and o: "keyed ''restaurant'' restaurant_key (existing_restaurant_keys reg) rows"
       "keyed ''menu'' menu_key (existing_menu_keys reg) rows"
       "keyed ''deliveryagent'' (\<lambda>a. item a ''phone'') (existing_agent_phones reg) rows"
    unfolding registered_def by simp_all
  have a: "keyed ''customer'' (\<lambda>c. item c ''mobile'')
             (insert (item v ''mobile'') (existing_customer_mobiles reg)) (rows @ [v])"
    using keyed_add[where key = "\<lambda>c. item c ''mobile''", OF k(1) f(1)] f(2) by simp
  have b: "keyed ''customer'' (\<lambda>c. lower (chars (item c ''email'')))
             (insert (lower (chars (item v ''email''))) (existing_customer_emails reg)) (rows @ [v])"
    using keyed_add[where key = "\<lambda>c. lower (chars (item c ''email''))", OF k(2) f(1)] f(3)
    by simp
  have c: "keyed ''customer'' customer_name_dob_key
             (insert (customer_name_dob_key v) (existing_customer_name_dob reg)) (rows @ [v])"
    using keyed_add[where key = customer_name_dob_key, OF k(3) f(1)] f(4) by simp
  show ?thesis
    unfolding registered_def using a b c o by (simp add: f(5) f(1) keyed_skip)
qed

lemma registered_restaurant:
  assumes "registered reg rows" and "restaurant_attempt fromiso reg t = Inr (Some v, reg', t')"
  shows "registered reg' (rows @ [v])"
proof -
  note f = restaurant_attempt_Some[OF assms(2)]
  from assms(1) have
    k: "keyed ''restaurant'' restaurant_key (existing_restaurant_keys reg) rows"
    and o: "keyed ''customer'' (\<lambda>c. item c ''mobile'') (existing_customer_mobiles reg) rows"
       "keyed ''customer'' (\<lambda>c. lower (chars (item c ''email''))) (existing_customer_emails reg) rows"
       "keyed ''customer'' customer_name_dob_key (existing_customer_name_dob reg) rows"
       "keyed ''menu'' menu_key (existing_menu_keys reg) rows"
       "keyed ''deliveryagent'' (\<lambda>a. item a ''phone'') (existing_agent_phones reg) rows"
    unfolding registered_def by simp_all
  have a: "keyed ''restaurant'' restaurant_key
             (insert (restaurant_key v) (existing_restaurant_keys reg)) (rows @ [v])"
    using keyed_add[where key = restaurant_key, OF k f(1)] f(2) by simp
  show ?thesis
    unfolding registered_def using a o by (simp add: f(3) f(1) keyed_skip)
qed

lemma registered_menu:
  assumes "registered reg rows" and "menu_attempt fromiso rid reg t = Inr (Some v, reg', t')"
  shows "registered reg' (rows @ [v])"
proof -
  note f = menu_attempt_Some[OF assms(2)]
  from assms(1) have
    k: "keyed ''menu'' menu_key (existing_menu_keys reg) rows"
    and o: "keyed ''customer'' (\<lambda>c. item c ''mobile'') (existing_customer_mobiles reg) rows"
       "keyed ''customer'' (\<lambda>c. lower (chars (item c ''email''))) (existing_customer_emails reg) rows"
       "keyed ''customer'' customer_name_dob_key (existing_customer_name_dob reg) rows"
       "keyed ''restaurant'' restaurant_key (existing_restaurant_keys reg) rows"
       "keyed ''deliveryagent'' (\<lambda>a. item a ''phone'') (existing_agent_phones reg) rows"
    unfolding registered_def by simp_all
  have a: "keyed ''menu'' menu_key (insert (menu_key v) (existing_menu_keys reg)) (rows @ [v])"
    using keyed_add[where key = menu_key, OF k f(1)] f(2) by simp
  show ?thesis
    unfolding registered_def using a o by (simp add: f(3) f(1) keyed_skip)
qed

lemma registered_deliveryagent:
  assumes "registered reg rows" and "deliveryagent_attempt fromiso reg t = Inr (Some v, reg', t')"
  shows "registered reg' (rows @ [v])"
proof -
  note f = deliveryagent_attempt_Some[OF assms(2)]
  from assms(1) have
    k: "keyed ''deliveryagent'' (\<lambda>a. item a ''phone'') (existing_agent_phones reg) rows"
    and o: "keyed ''customer'' (\<lambda>c. item c ''mobile'') (existing_customer_mobiles reg) rows"
       "keyed ''customer'' (\<lambda>c. lower (chars (item c ''email''))) (existing_customer_emails reg) rows"
       "keyed ''customer'' customer_name_dob_key (existing_customer_name_dob reg) rows"
       "keyed ''restaurant'' restaurant_key (existing_restaurant_keys reg) rows"
       "keyed ''menu'' menu_key (existing_menu_keys reg) rows"
    unfolding registered_def by simp_all
  have a: "keyed ''deliveryagent'' (\<lambda>a. item a ''phone'')
             (insert (item v ''phone'') (existing_agent_phones reg)) (rows @ [v])"
    using keyed_add[where key = "\<lambda>a. item a ''phone''", OF k f(1)] f(2) by simp
  show ?thesis
    unfolding registered_def using a o by (simp add: f(3) f(1) keyed_skip)
qed

lemma registered_fallback:
  "registered reg rows
     \<Longrightarrow> registered (reg\<lparr>existing_menu_keys := insert k (existing_menu_keys reg)\<rparr>) rows"
  unfolding registered_def by (auto intro: keyed_mono)

lemma registered_attempts:
  assumes "registered reg rows"
    and "\<And>reg t reg' t'. body reg t = Inr (None, reg', t') \<Longrightarrow> reg' = reg"
    and "\<And>t v reg' t'. body reg t = Inr (Some v, reg', t') \<Longrightarrow> registered reg' (rows @ [v])"
    and "attempts n body reg t = Inr (r, reg', t')"
  shows "registered reg' (case r of None \<Rightarrow> rows | Some v \<Rightarrow> rows @ [v])"
proof (cases r)
  case None
  with assms(4) have "attempts n body reg t = Inr (None, reg', t')" by simp
  then have "reg' = reg" using assms(2) by (rule attempts_none[rotated])
  with assms(1) None show ?thesis by simp
next
  case (Some v)
  with assms(4) have "attempts n body reg t = Inr (Some v, reg', t')" by simp
  then obtain t0 where "body reg t0 = Inr (Some v, reg', t')"
    using attempts_Some[of body n reg t v reg' t'] assms(2) by blast
  then show ?thesis using assms(3) Some by simp
qed

lemma registered_run_call:
  assumes "registered reg rows" and "run_call fromiso c reg t = Inr (r, reg', t')"
  shows "registered reg' (case r of None \<Rightarrow> rows | Some v \<Rightarrow> rows @ [v])"
proof (cases c)
  case (NewCustomer cid)
  show ?thesis
    by (rule registered_attempts[OF assms(1), of "customer_attempt fromiso cid"
          MAX_UNIQUENESS_ATTEMPTS t r reg' t'])
      (use assms NewCustomer in \<open>auto simp: make_customer_unique_def
          dest: customer_attempt_none intro: registered_customer\<close>)
next
  case NewRestaurant
  show ?thesis
    by (rule registered_attempts[OF assms(1), of "restaurant_attempt fromiso"
          MAX_UNIQUENESS_ATTEMPTS t r reg' t'])
      (use assms NewRestaurant in \<open>auto simp: make_restaurant_unique_def
          dest: restaurant_attempt_none intro: registered_restaurant\<close>)
next
  case (NewMenu rid)
  show ?thesis
    by (rule registered_attempts[OF assms(1), of "menu_attempt fromiso rid"
          MAX_UNIQUENESS_ATTEMPTS t r reg' t'])
      (use assms NewMenu in \<open>auto simp: make_menu_unique_def
          dest: menu_attempt_none intro: registered_menu\<close>)
next
  case NewAgent
  show ?thesis
    by (rule registered_attempts[OF assms(1), of "deliveryagent_attempt fromiso"
          MAX_UNIQUENESS_ATTEMPTS t r reg' t'])
      (use assms NewAgent in \<open>auto simp: make_deliveryagent_unique_def
          dest: deliveryagent_attempt_none intro: registered_deliveryagent\<close>)
next
  case (RegisterFallback rid)
  with assms show ?thesis
    by (auto simp: split_def Let_def intro: registered_fallback)
qed

lemma registered_lifetime:
  "registered reg rows \<Longrightarrow> lifetime fromiso cs rows reg t = Inr (rows', reg', t')
     \<Longrightarrow> registered reg' rows'"
proof (induction cs arbitrary: rows reg t)
  case Nil
  then show ?case by simp
next
  case (Cons c cs)
  show ?case
  proof (cases "run_call fromiso c reg t")
    case (Inl e)
    with Cons.prems show ?thesis by simp
  next
    case (Inr x)
    obtain r ra ta where x: "x = (r, ra, ta)" by (cases x) auto
    from registered_run_call[OF Cons.prems(1)] Inr x
    have reg: "registered ra (case r of None \<Rightarrow> rows | Some v \<Rightarrow> rows @ [v])" by simp
    from Cons.prems(2) Inr x
    have "lifetime fromiso cs (case r of None \<Rightarrow> rows | Some v \<Rightarrow> rows @ [v]) ra ta
            = Inr (rows', reg', t')"
      by (cases r) simp_all
    with reg show ?thesis by (rule Cons.IH)
  qed
qed

lemma distinct_map_coarser:
  assumes "distinct (map f xs)" and "\<And>x y. g x = g y \<Longrightarrow> f x = f y"
  shows "distinct (map g xs)"
proof -
  from assms(1) have d: "distinct xs" and i: "inj_on f (set xs)" by (auto simp: distinct_map)
  have "inj_on g (set xs)"
    by (rule inj_onI) (use i assms(2) in \<open>auto dest: inj_onD\<close>)
  with d show ?thesis by (simp add: distinct_map)
qed

lemma lower_eq_strip: "lower a = lower b \<Longrightarrow> lower (strip a) = lower (strip b)"
  by (simp add: lower_strip)

lemma two_agents:
  "map_sum id fst (lifetime fromisoformat_known [NewAgent, NewAgent] [] empty_registry agents_tape)
     = Inr [[(''type'', PStr ''deliveryagent''), (''deliveryagent_id'', PStr ''g1''),
             (''name'', PStr ''Ravi Kumar''), (''phone'', PStr ''9876543210''),
             (''vehicle_type'', PStr ''bike''), (''location_id'', PStr ''loc1''),
             (''status'', PStr ''available''), (''rating'', PDec 3),
             (''created_date'', PStr ''2024-01-01T00:00:00+00:00'')],
            [(''type'', PStr ''deliveryagent''), (''deliveryagent_id'', PStr ''g2''),
             (''name'', PStr ''Meera Nair''), (''phone'', PStr ''6123456789''),
             (''vehicle_type'', PStr ''scooter''), (''location_id'', PStr ''loc2''),
             (''status'', PStr ''busy''), (''rating'', PDec 2),
             (''created_date'', PStr ''2024-01-01T00:00:00+00:00'')]]"
  by code_simp

text \<open>
  C2. Over one lifetime of the registry, started empty, no two records that the
  uniqueness-constrained factories returned share a natural key: customers differ in
  mobile, in lower-cased email and in (lower-cased name, dob); restaurants in
  (lower-cased name, location_id); menu items in (restaurant_id, lower-cased item name);
  delivery agents in phone.
\<close>

theorem natural_keys_never_repeat:
  assumes "lifetime fromiso calls [] empty_registry t = Inr (returned, reg, t')"
  shows "distinct (map (\<lambda>c. item c ''mobile'') (of_type ''customer'' returned))
     \<and> distinct (map (\<lambda>c. lower (chars (item c ''email''))) (of_type ''customer'' returned))
     \<and> distinct (map (\<lambda>c. (lower (chars (item c ''name'')), item c ''dob''))
                   (of_type ''customer'' returned))
     \<and> distinct (map (\<lambda>r. (lower (chars (item r ''name'')), item r ''location_id''))
                   (of_type ''restaurant'' returned))
     \<and> distinct (map (\<lambda>m. (item m ''restaurant_id'', lower (chars (item m ''itemname''))))
                   (of_type ''menu'' returned))
     \<and> distinct (map (\<lambda>a. item a ''phone'') (of_type ''deliveryagent'' returned))"
proof -
  from registered_lifetime[OF registered_empty assms] have r: "registered reg returned" .
  then have
    k: "distinct (map (\<lambda>c. item c ''mobile'') (of_type ''customer'' returned))"
       "distinct (map (\<lambda>c. lower (chars (item c ''email''))) (of_type ''customer'' returned))"
       "distinct (map customer_name_dob_key (of_type ''customer'' returned))"
       "distinct (map restaurant_key (of_type ''restaurant'' returned))"
       "distinct (map menu_key (of_type ''menu'' returned))"
       "distinct (map (\<lambda>a. item a ''phone'') (of_type ''deliveryagent'' returned))"
    unfolding registered_def keyed_def by simp_all
  have c: "distinct (map (\<lambda>c. (lower (chars (item c ''name'')), item c ''dob''))
                   (of_type ''customer'' returned))"
    by (rule distinct_map_coarser[OF k(3)])
      (auto simp: customer_name_dob_key_def dest: lower_eq_strip)
  have s: "distinct (map (\<lambda>r. (lower (chars (item r ''name'')), item r ''location_id''))
                   (of_type ''restaurant'' returned))"
    by (rule distinct_map_coarser[OF k(4)])
      (auto simp: restaurant_key_def dest: lower_eq_strip)
  have m: "distinct (map (\<lambda>m. (item m ''restaurant_id'', lower (chars (item m ''itemname''))))
                   (of_type ''menu'' returned))"
    by (rule distinct_map_coarser[OF k(5)])
      (auto simp: menu_key_def dest: lower_eq_strip)
  from k(1,2,6) c s m show ?thesis by simp
qed

theorem natural_keys_never_repeat_witness:
  "\<exists>returned reg t'.
     lifetime fromisoformat_known [NewAgent, NewAgent] [] empty_registry agents_tape
       = Inr (returned, reg, t')
     \<and> length (of_type ''deliveryagent'' returned) = 2
     \<and> distinct (map (\<lambda>a. item a ''phone'') (of_type ''deliveryagent'' returned))"
proof -
  obtain returned reg t' where
    e: "lifetime fromisoformat_known [NewAgent, NewAgent] [] empty_registry agents_tape
          = Inr (returned, reg, t')"
    using two_agents
    by (cases "lifetime fromisoformat_known [NewAgent, NewAgent] [] empty_registry agents_tape")
      auto
  with two_agents have "length (of_type ''deliveryagent'' returned) = 2"
    by (auto simp: of_type_def item_def)
  with e natural_keys_never_repeat[OF e] show ?thesis by blast
qed


section \<open>Properties of the order factory\<close>






















end
